theory Spec2Isabelle
  imports Complex_Main "HOL-Library.Word"
begin

chapter \<open>Internet Object: tokenizer, AST parser and type validators\<close>

text \<open>
  A shallow embedding of the TypeScript sources: the position-indexed tokenizer
  (\<^verbatim>\<open>src/tokenizer/index.ts\<close>), the AST parser (\<^verbatim>\<open>ASTParser\<close>), the string type
  definition (\<^verbatim>\<open>StringDef\<close>, \<^verbatim>\<open>_process\<close>) and the number type definition
  (\<^verbatim>\<open>NumberDef\<close>, \<^verbatim>\<open>_getValidator\<close>, \<^verbatim>\<open>_intValidator\<close>).

  A JavaScript string is a sequence of 16-bit code units. Exceptions are values of a sum
  type (\<open>Inl\<close> carries the error). Names of the source that begin with an underscore
  lose it (\<^verbatim>\<open>_process\<close> is \<open>process_string\<close>, \<^verbatim>\<open>_getValidator\<close> is \<open>getValidator\<close>).
\<close>

section \<open>JavaScript strings and values\<close>

type_synonym jsstring = "16 word list"

definition str :: "string \<Rightarrow> jsstring" where
  "str s = map of_char s"

text \<open>
  The values the validators receive (\<^verbatim>\<open>any\<close> in the source). A number is a double:
  a finite one (\<open>JNum\<close>), read as the real it denotes, since the validators only compare
  numbers and never compute with them, or one of \<^verbatim>\<open>NaN\<close>, \<^verbatim>\<open>Infinity\<close> and \<^verbatim>\<open>-Infinity\<close>.
\<close>

datatype jsval =
    JUndefined
  | JNull
  | JBool bool
  | JNum real
  | JNaN
  | JInfinity
  | JNegInfinity
  | JBigInt int
  | JStr jsstring

fun typeof :: "jsval \<Rightarrow> string" where
  "typeof JUndefined = ''undefined''"
| "typeof JNull = ''object''"
| "typeof (JBool b) = ''boolean''"
| "typeof (JNum x) = ''number''"
| "typeof JNaN = ''number''"
| "typeof JInfinity = ''number''"
| "typeof JNegInfinity = ''number''"
| "typeof (JBigInt i) = ''bigint''"
| "typeof (JStr s) = ''string''"

text \<open>\<^verbatim>\<open>is.ts\<close>: \<^verbatim>\<open>isNumber\<close>, \<^verbatim>\<open>isString\<close>.\<close>

definition isNumber :: "jsval \<Rightarrow> bool" where
  "isNumber val = (typeof val = ''number'')"

definition isString :: "jsval \<Rightarrow> bool" where
  "isString val = (typeof val = ''string'')"

text \<open>JavaScript truthiness, as \<^verbatim>\<open>||\<close> and \<^verbatim>\<open>&&\<close> read a value.\<close>

fun truthy :: "jsval \<Rightarrow> bool" where
  "truthy JUndefined = False"
| "truthy JNull = False"
| "truthy (JBool b) = b"
| "truthy (JNum x) = (x \<noteq> 0)"
| "truthy JNaN = False"
| "truthy JInfinity = True"
| "truthy JNegInfinity = True"
| "truthy (JBigInt i) = (i \<noteq> 0)"
| "truthy (JStr s) = (s \<noteq> [])"

text \<open>
  \<^verbatim>\<open>value < bound\<close> and \<^verbatim>\<open>value > bound\<close> for a number or a bigint on the left and a
  finite number on the right. Every comparison with \<^verbatim>\<open>NaN\<close> is false. The validators
  reach these comparisons with no other kind of value.
\<close>

fun js_lt :: "jsval \<Rightarrow> real \<Rightarrow> bool" where
  "js_lt (JNum x) b = (x < b)"
| "js_lt (JBigInt i) b = (real_of_int i < b)"
| "js_lt JNegInfinity b = True"
| "js_lt v b = False"

fun js_gt :: "jsval \<Rightarrow> real \<Rightarrow> bool" where
  "js_gt (JNum x) b = (x > b)"
| "js_gt (JBigInt i) b = (real_of_int i > b)"
| "js_gt JInfinity b = True"
| "js_gt v b = False"

text \<open>
  \<^verbatim>\<open>value.length > bound\<close> for a bound that is a number: the length of a string is a
  finite number, greater than \<^verbatim>\<open>-Infinity\<close> and not greater than \<^verbatim>\<open>NaN\<close> or \<^verbatim>\<open>Infinity\<close>.
\<close>

fun length_gt :: "nat \<Rightarrow> jsval \<Rightarrow> bool" where
  "length_gt n (JNum m) = (real n > m)"
| "length_gt n JNegInfinity = True"
| "length_gt n v = False"

section \<open>Error codes\<close>

text \<open>
  The members of \<^verbatim>\<open>ErrorCodes\<close> the validators throw, and the code
  \<^verbatim>\<open>`not-a-${memberDef.type}`\<close> that \<^verbatim>\<open>_intValidator\<close> builds. \<open>ErrorCodes\<close> gives the
  string of each. The enum under \<^verbatim>\<open>src/\<close> is an older one without \<^verbatim>\<open>invalidRange\<close> and
  \<^verbatim>\<open>unsupportedNumberType\<close>.

  Modelled from the spec: the strings of \<^verbatim>\<open>ErrorCodes.invalidRange\<close> and
  \<^verbatim>\<open>ErrorCodes.unsupportedNumberType\<close>, named \<^verbatim>\<open>invalid-range\<close> and
  \<^verbatim>\<open>unsupported-number-type\<close> there.
\<close>

datatype error_code =
    invalidType
  | invalidValue
  | valueRequired
  | nullNotAllowed
  | notAString
  | invalidEmail
  | invalidUrl
  | valueNotInChoice
  | invalidMinLength
  | invalidMaxLength
  | outOfRange
  | invalidRange
  | unsupportedNumberType
  | notA string

fun ErrorCodes :: "error_code \<Rightarrow> string" where
  "ErrorCodes invalidType = ''invalid-type''"
| "ErrorCodes invalidValue = ''invalid-value''"
| "ErrorCodes valueRequired = ''value-required''"
| "ErrorCodes nullNotAllowed = ''null-not-allowed''"
| "ErrorCodes notAString = ''not-a-string''"
| "ErrorCodes invalidEmail = ''invalid-email''"
| "ErrorCodes invalidUrl = ''invalid-url''"
| "ErrorCodes valueNotInChoice = ''value-not-in-choice''"
| "ErrorCodes invalidMinLength = ''invalid-min-length''"
| "ErrorCodes invalidMaxLength = ''invalid-max-length''"
| "ErrorCodes outOfRange = ''out-of-range''"
| "ErrorCodes invalidRange = ''invalid-range''"
| "ErrorCodes unsupportedNumberType = ''unsupported-number-type''"
| "ErrorCodes (notA t) = ''not-a-'' @ t"

section \<open>Member definitions and the common type check\<close>

text \<open>
  \<^verbatim>\<open>MemberDef\<close>. The fields \<^verbatim>\<open>null\<close>, \<^verbatim>\<open>default\<close>, \<^verbatim>\<open>min\<close> and \<^verbatim>\<open>max\<close> carry the suffix
  \<open>_md\<close>. An unset \<^verbatim>\<open>default\<close>, \<^verbatim>\<open>minLength\<close> or \<^verbatim>\<open>maxLength\<close> is \<open>JUndefined\<close>; an unset
  \<^verbatim>\<open>min\<close> or \<^verbatim>\<open>max\<close> (\<^verbatim>\<open>null\<close>) is \<open>None\<close>. \<open>re\<close> is the cache of the compiled pattern:
  the source text the regular expression was compiled from.
\<close>

record memberDef =
  type :: string
  path :: string
  optional :: bool
  null_md :: bool
  default_md :: jsval
  choices :: "jsval list option"
  min_md :: "real option"
  max_md :: "real option"
  minLength :: jsval
  maxLength :: jsval
  pattern :: "jsstring option"
  re :: "jsstring option"

text \<open>
  Modelled from the spec: \<^verbatim>\<open>doCommonTypeCheck\<close> (\<^verbatim>\<open>./utils\<close>, \<^verbatim>\<open>./common-type\<close>), which is
  not under \<^verbatim>\<open>src/\<close>. An absent value gives the default when the member is optional and
  fails \<^verbatim>\<open>value-required\<close> otherwise; \<^verbatim>\<open>null\<close> is returned when allowed and fails
  \<^verbatim>\<open>null-not-allowed\<close> otherwise; a value outside the choices fails
  \<^verbatim>\<open>value-not-in-choice\<close>; any other value is returned unchanged.
\<close>

definition doCommonTypeCheck :: "memberDef \<Rightarrow> jsval \<Rightarrow> error_code + jsval" where
  "doCommonTypeCheck memberDef value =
     (if value = JUndefined then
        (if optional memberDef then Inr (default_md memberDef) else Inl valueRequired)
      else if value = JNull then
        (if null_md memberDef then Inr JNull else Inl nullNotAllowed)
      else (case choices memberDef of
              None \<Rightarrow> Inr value
            | Some cs \<Rightarrow> if value \<notin> set cs then Inl valueNotInChoice else Inr value))"

text \<open>
  The \<^verbatim>\<open>Definitions\<close> collaborator, \<^verbatim>\<open>getV(name)\<close>: \<open>None\<close> is \<^verbatim>\<open>undefined\<close>. A parser
  node is identified with the value it carries; source positions are not modelled.
\<close>

type_synonym definitions = "jsval \<Rightarrow> jsval option"

text \<open>\<^verbatim>\<open>defs?.getV(node) || node\<close>, and \<^verbatim>\<open>vars.getV(value) || value\<close> under \<^verbatim>\<open>if (vars)\<close>.\<close>

definition getV_or :: "definitions option \<Rightarrow> jsval \<Rightarrow> jsval" where
  "getV_or defs node =
     (case defs of
        None \<Rightarrow> node
      | Some getV \<Rightarrow>
          (case getV node of
             None \<Rightarrow> node
           | Some valueFound \<Rightarrow> if truthy valueFound then valueFound else node))"

section \<open>The string type definition\<close>

text \<open>
  The regular expressions \<^verbatim>\<open>_validatePattern\<close> tests: the user's pattern after anchoring,
  \<^verbatim>\<open>emailExp\<close> and \<^verbatim>\<open>urlExp\<close>. Matching is a parameter \<open>test\<close> of the model
  (\<^verbatim>\<open>RegExp.prototype.test\<close>).
\<close>

datatype regexp = RegExp jsstring | emailExp | urlExp

definition startsWith :: "jsstring \<Rightarrow> jsstring \<Rightarrow> bool" where
  "startsWith s p = (take (length p) s = p)"

definition endsWith :: "jsstring \<Rightarrow> jsstring \<Rightarrow> bool" where
  "endsWith s p = (length p \<le> length s \<and> drop (length s - length p) s = p)"

text \<open>
  \<^verbatim>\<open>_validatePattern\<close>. It returns the member definition, whose \<open>re\<close> it fills when it
  compiles the pattern.
\<close>

definition validatePattern ::
  "(regexp \<Rightarrow> jsstring \<Rightarrow> bool) \<Rightarrow> memberDef \<Rightarrow> jsstring \<Rightarrow> error_code + memberDef" where
  "validatePattern test memberDef value =
     (if type memberDef = ''string'' \<and> pattern memberDef \<noteq> None then
        (let memberDef' =
           (case re memberDef of
              Some r \<Rightarrow> memberDef
            | None \<Rightarrow>
                (let pattern0 = the (pattern memberDef);
                     pattern1 = (if startsWith pattern0 (str ''^'') then pattern0
                                 else str ''^'' @ pattern0);
                     pattern2 = (if endsWith pattern1 (str ''$'') then pattern1
                                 else pattern1 @ str ''$'')
                 in memberDef\<lparr>re := Some pattern2\<rparr>))
         in if \<not> test (RegExp (the (re memberDef'))) value then Inl invalidValue
            else Inr memberDef')
      else if type memberDef = ''email'' then
        (if \<not> test emailExp value then Inl invalidEmail else Inr memberDef)
      else if type memberDef = ''url'' then
        (if \<not> test urlExp value then Inl invalidUrl else Inr memberDef)
      else Inr memberDef)"

text \<open>
  \<^verbatim>\<open>_process\<close>. The result is the value returned and the member definition as
  \<^verbatim>\<open>_validatePattern\<close> left it.
\<close>

definition process_string ::
  "(regexp \<Rightarrow> jsstring \<Rightarrow> bool) \<Rightarrow> memberDef \<Rightarrow> jsval \<Rightarrow> definitions option
     \<Rightarrow> error_code + (jsval \<times> memberDef)" where
  "process_string test memberDef value0 vars =
     (let value = getV_or vars value0
      in case doCommonTypeCheck memberDef value of
           Inl e \<Rightarrow> Inl e
         | Inr validatedData \<Rightarrow>
             if validatedData \<noteq> value \<or> validatedData = JNull \<or> validatedData = JUndefined
             then Inr (validatedData, memberDef)
             else (case value of
                     JStr s \<Rightarrow>
                       (case validatePattern test memberDef s of
                          Inl e \<Rightarrow> Inl e
                        | Inr memberDef' \<Rightarrow>
                            (case (if maxLength memberDef' \<noteq> JUndefined
                                      \<and> isNumber (maxLength memberDef')
                                      \<and> length_gt (length s) (maxLength memberDef')
                                   then Inl invalidMaxLength else Inr ()) of
                               Inl e \<Rightarrow> Inl e
                             | Inr u \<Rightarrow>
                                 if minLength memberDef' \<noteq> JUndefined
                                    \<and> isNumber (minLength memberDef')
                                    \<and> length_gt (length s) (minLength memberDef')
                                 then Inl invalidMinLength
                                 else Inr (value, memberDef')))
                   | _ \<Rightarrow> Inl notAString))"

section \<open>The number type definition\<close>

definition NUMBER_TYPES :: "string list" where
  "NUMBER_TYPES =
     [''bigint'',
      ''int'', ''uint'', ''float'', ''number'',
      ''int8'', ''int16'', ''int32'',
      ''uint8'', ''uint16'', ''uint32'', ''uint64'',
      ''float32'', ''float64'']"

definition NUMBER_MAP :: "string \<Rightarrow> bool" where
  "NUMBER_MAP key = (key \<in> set NUMBER_TYPES)"

text \<open>
  \<^verbatim>\<open>_intValidator\<close>; its parameters \<^verbatim>\<open>min\<close> and \<^verbatim>\<open>max\<close> are \<open>min_v\<close> and \<open>max_v\<close>,
  and \<open>None\<close> is a \<^verbatim>\<open>null\<close> bound.
\<close>

definition intValidator ::
  "real option \<Rightarrow> real option \<Rightarrow> memberDef \<Rightarrow> jsval \<Rightarrow> error_code + unit" where
  "intValidator min_v max_v memberDef value =
     (let valueType = (if typeof value = ''bigint'' then ''bigint''
                       else if NUMBER_MAP (typeof value) then ''number'' else '''');
          memberdefType = (if type memberDef = ''bigint'' then ''bigint'' else ''number'')
      in if valueType = '''' then Inl invalidType
         else if memberdefType \<noteq> valueType then Inl (notA (type memberDef))
         else if (min_v \<noteq> None \<and> js_lt value (the min_v))
                 \<or> (max_v \<noteq> None \<and> js_gt value (the max_v))
         then Inl invalidRange
         else Inr ())"

text \<open>
  \<^verbatim>\<open>_getValidator\<close>. A \<^verbatim>\<open>switch\<close> takes the first matching label, so the label
  \<^verbatim>\<open>'float64'\<close> of the first group decides and the one of the last group is never reached.
\<close>

definition getValidator ::
  "string \<Rightarrow> error_code + (memberDef \<Rightarrow> jsval \<Rightarrow> error_code + unit)" where
  "getValidator t =
     (if t \<in> {''float'', ''float64'', ''number'', ''bigint'', ''int''} then
        Inr (intValidator None None)
      else if t = ''uint'' then Inr (intValidator (Some 0) None)
      else if t = ''int8'' then Inr (intValidator (Some (- (2 ^ 7))) (Some (2 ^ 7 - 1)))
      else if t = ''uint8'' then Inr (intValidator (Some 0) (Some (2 ^ 8 - 1)))
      else if t = ''int16'' then Inr (intValidator (Some (- (2 ^ 15))) (Some (2 ^ 15 - 1)))
      else if t = ''uint16'' then Inr (intValidator (Some 0) (Some (2 ^ 16 - 1)))
      else if t = ''int32'' then Inr (intValidator (Some (- (2 ^ 31))) (Some (2 ^ 31 - 1)))
      else if t = ''uint32'' then Inr (intValidator (Some 0) (Some (2 ^ 32 - 1)))
      else if t \<in> {''uint64'', ''int64'', ''float32'', ''float64''} then
        Inr (\<lambda>memberDef value. Inl unsupportedNumberType)
      else Inl invalidType)"

text \<open>
  \<^verbatim>\<open>class NumberDef\<close>: the constructor stores the type and its validator (and throws when
  \<^verbatim>\<open>_getValidator\<close> does), \<^verbatim>\<open>parse\<close> runs the common check, the validator and the
  \<^verbatim>\<open>min\<close>/\<^verbatim>\<open>max\<close> checks of the member definition.
\<close>

record numberDef =
  nd_type :: string
  nd_validator :: "memberDef \<Rightarrow> jsval \<Rightarrow> error_code + unit"

definition NumberDef :: "string \<Rightarrow> error_code + numberDef" where
  "NumberDef t =
     (case getValidator t of
        Inl e \<Rightarrow> Inl e
      | Inr v \<Rightarrow> Inr \<lparr>nd_type = t, nd_validator = v\<rparr>)"

definition parse_number ::
  "numberDef \<Rightarrow> jsval \<Rightarrow> memberDef \<Rightarrow> definitions option \<Rightarrow> error_code + jsval" where
  "parse_number this node memberDef defs =
     (let valueNode = getV_or defs node
      in case doCommonTypeCheck memberDef valueNode of
           Inl e \<Rightarrow> Inl e
         | Inr value \<Rightarrow>
             (case nd_validator this memberDef value of
                Inl e \<Rightarrow> Inl e
              | Inr u \<Rightarrow>
                  if min_md memberDef \<noteq> None \<and> js_lt value (the (min_md memberDef))
                  then Inl outOfRange
                  else if max_md memberDef \<noteq> None \<and> js_gt value (the (max_md memberDef))
                  then Inl outOfRange
                  else Inr value))"

text \<open>\<^verbatim>\<open>new NumberDef(t).parse(node, memberDef, defs)\<close>.\<close>

definition NumberDef_parse ::
  "string \<Rightarrow> jsval \<Rightarrow> memberDef \<Rightarrow> definitions option \<Rightarrow> error_code + jsval" where
  "NumberDef_parse t node memberDef defs =
     (case NumberDef t of
        Inl e \<Rightarrow> Inl e
      | Inr this \<Rightarrow> parse_number this node memberDef defs)"

text \<open>
  The specification's ranges, to compare the validators with: a signed type of \<open>n\<close> bits
  holds \<open>[-2^(n-1), 2^(n-1)-1]\<close>, an unsigned one \<open>[0, 2^n-1]\<close>; \<open>fixed_width_type\<close> is the
  name of the type (\<^verbatim>\<open>int8\<close>, \<^verbatim>\<open>uint16\<close>, ...) for the widths 8, 16, 32 and 64. A value
  lies in a range when it is a finite number between the two bounds, the bounds included:
  \<^verbatim>\<open>NaN\<close> and the infinities lie in no range.
\<close>

definition twos_complement_range :: "bool \<Rightarrow> nat \<Rightarrow> real \<times> real" where
  "twos_complement_range is_signed n =
     (if is_signed then (- (2 ^ (n - 1)), 2 ^ (n - 1) - 1) else (0, 2 ^ n - 1))"

definition fixed_width_type :: "bool \<Rightarrow> nat \<Rightarrow> string" where
  "fixed_width_type is_signed n =
     (if is_signed then ''int'' else ''uint'')
       @ (if n = 8 then ''8'' else if n = 16 then ''16'' else if n = 32 then ''32'' else ''64'')"

fun in_range :: "jsval \<Rightarrow> real \<times> real \<Rightarrow> bool" where
  "in_range (JNum v) r = (fst r \<le> v \<and> v \<le> snd r)"
| "in_range v r = False"

section \<open>The AST parser\<close>

text \<open>
  The token the parser reads (\<^verbatim>\<open>../token\<close>, as the character-stream tokenizer fills it):
  \<^verbatim>\<open>value\<close>, \<^verbatim>\<open>type\<close> (\<^verbatim>\<open>"sep"\<close> for the separators \<^verbatim>\<open>{ } [ ] : ,\<close> and \<^verbatim>\<open>~\<close>) and the
  position. The fields carry the prefix \<open>tok_\<close>.
\<close>

record Token =
  tok_value :: jsval
  tok_type :: string
  tok_index :: nat
  tok_row :: nat
  tok_col :: nat

text \<open>
  \<^verbatim>\<open>ParserTreeValue\<close>: a primitive, a container or a key-value pair \<^verbatim>\<open>{key, value}\<close>. The
  parser keeps each open container both in its parent's \<^verbatim>\<open>values\<close> and on the stack, and
  changes it through the stack. So containers live in a store (a list, the address is the
  index, a new container is appended) and a \<open>Tree\<close> node is the address of one. A key-value
  pair is referred to from one place only, the \<^verbatim>\<open>values\<close> that hold it, so it is a value.
\<close>

datatype node =
    Prim jsval
  | Tree nat
  | KeyVal jsstring node

text \<open>\<^verbatim>\<open>ASTParserTree\<close>; its fields \<^verbatim>\<open>type\<close> and \<^verbatim>\<open>values\<close> carry the prefix \<open>tree_\<close>.\<close>

record ASTParserTree =
  tree_type :: string
  tree_values :: "node list"

record ASTParser =
  heap :: "ASTParserTree list"
  stack :: "nat list"
  lastToken :: "Token option"

definition new_ASTParser :: ASTParser where
  "new_ASTParser = \<lparr>heap = [], stack = [], lastToken = None\<rparr>"

text \<open>
  Modelled from the spec: \<^verbatim>\<open>throwError(token, message)\<close> of \<^verbatim>\<open>../errors\<close>, which is not
  under \<^verbatim>\<open>src/\<close>: it raises the bracket-mismatch error that carries the token. The error
  is the pair of the token and the message.
\<close>

type_synonym parser_error = "Token \<times> string"

text \<open>\<^verbatim>\<open>getObject\<close>: the top of the stack, after pushing the root when the stack is empty.\<close>

definition getObject :: "ASTParser \<Rightarrow> nat \<times> ASTParser" where
  "getObject this =
     (if stack this = [] then
        (length (heap this),
         this\<lparr>heap := heap this @ [\<lparr>tree_type = ''object'', tree_values = []\<rparr>],
              stack := [length (heap this)]\<rparr>)
      else (last (stack this), this))"

text \<open>\<^verbatim>\<open>obj.values[obj.values.length - 1]\<close>: \<open>None\<close> is \<^verbatim>\<open>undefined\<close>.\<close>

definition lastVal_of :: "ASTParserTree \<Rightarrow> node option" where
  "lastVal_of obj = (if tree_values obj = [] then None else Some (last (tree_values obj)))"

text \<open>
  Modelled from the spec: \<^verbatim>\<open>isKeyVal\<close> of \<^verbatim>\<open>../is\<close>, which is not under \<^verbatim>\<open>src/\<close>: the
  node is a key-value pair.
\<close>

fun isKeyVal :: "node \<Rightarrow> bool" where
  "isKeyVal (KeyVal k v) = True"
| "isKeyVal n = False"

text \<open>
  \<^verbatim>\<open>addValue\<close>. After a \<^verbatim>\<open>:\<close> the value fills the key-value pair that ends the container,
  and is dropped when the container does not end with one; otherwise it is appended.
\<close>

definition addValue :: "node \<Rightarrow> ASTParser \<Rightarrow> ASTParser" where
  "addValue value this0 =
     (let (obj, this) = getObject this0
      in if lastToken this \<noteq> None \<and> tok_value (the (lastToken this)) = JStr (str '':'') then
           (case lastVal_of (heap this ! obj) of
              Some (KeyVal k v) \<Rightarrow>
                this\<lparr>heap := (heap this)
                  [obj := (heap this ! obj)\<lparr>tree_values :=
                     butlast (tree_values (heap this ! obj)) @ [KeyVal k value]\<rparr>]\<rparr>
            | _ \<Rightarrow> this)
         else
           this\<lparr>heap := (heap this)
             [obj := (heap this ! obj)\<lparr>tree_values := tree_values (heap this ! obj) @ [value]\<rparr>]\<rparr>)"

text \<open>\<^verbatim>\<open>push\<close>; its parameter \<^verbatim>\<open>type\<close> is \<open>t\<close>, and \<^verbatim>\<open>values\<close> is a fresh \<^verbatim>\<open>[]\<close> at every call.\<close>

definition push :: "string \<Rightarrow> ASTParser \<Rightarrow> ASTParser" where
  "push t this0 =
     (let (object, this1) = getObject this0;
          newObject = length (heap this1);
          this2 = this1\<lparr>heap := heap this1 @ [\<lparr>tree_type = t, tree_values = []\<rparr>]\<rparr>;
          this3 = addValue (Tree newObject) this2
      in this3\<lparr>stack := stack this3 @ [newObject]\<rparr>)"

text \<open>\<^verbatim>\<open>pop\<close>; its parameter \<^verbatim>\<open>type\<close> is \<open>t\<close>.\<close>

definition pop :: "string \<Rightarrow> Token \<Rightarrow> ASTParser \<Rightarrow> parser_error + ASTParser" where
  \<open>pop t token this0 =
     (let (obj, this) = getObject this0
      in if tree_type (heap this ! obj) \<noteq> t then
           Inl (token,
                ''Expecting "''
                  @ (if tree_type (heap this ! obj) = ''object'' then ''}'' else '']'')
                  @ ''" but found "''
                  @ (if tree_type (heap this ! obj) = ''object'' then '']'' else ''}'')
                  @ ''"'')
         else Inr (this\<lparr>stack := butlast (stack this)\<rparr>))\<close>

text \<open>
  \<^verbatim>\<open>lastVal.toString()\<close> for a string, a number or a boolean. The printing of a finite
  number (\<^verbatim>\<open>Number.prototype.toString\<close>) is the parameter \<open>num_toString\<close> of the model.
\<close>

fun toString :: "(real \<Rightarrow> jsstring) \<Rightarrow> jsval \<Rightarrow> jsstring" where
  "toString num_toString (JStr s) = s"
| "toString num_toString (JNum x) = num_toString x"
| "toString num_toString JNaN = str ''NaN''"
| "toString num_toString JInfinity = str ''Infinity''"
| "toString num_toString JNegInfinity = str ''-Infinity''"
| "toString num_toString (JBool b) = (if b then str ''true'' else str ''false'')"
| "toString num_toString v = []"

text \<open>
  \<^verbatim>\<open>lastVal && ['string', 'number', 'boolean'].indexOf(typeof lastVal) > -1\<close>: the last
  value exists, is truthy and is a string, a number or a boolean. A container and a
  key-value pair are objects.
\<close>

fun is_key_candidate :: "node option \<Rightarrow> bool" where
  "is_key_candidate (Some (Prim v)) =
     (truthy v \<and> typeof v \<in> {''string'', ''number'', ''boolean''})"
| "is_key_candidate n = False"

text \<open>
  \<^verbatim>\<open>process\<close>. The branch of \<^verbatim>\<open>:\<close> has an empty \<^verbatim>\<open>else\<close> (a comment only), so a last value
  that cannot be a key leaves the parser as it is. \<^verbatim>\<open>isFinalToken\<close> is not read.
\<close>

definition process ::
  "(real \<Rightarrow> jsstring) \<Rightarrow> Token \<Rightarrow> ASTParser \<Rightarrow> parser_error + ASTParser" where
  "process num_toString token this0 =
     (let (obj, this) = getObject this0;
          result =
            (if tok_value token = JStr (str ''{'') then Inr (push ''object'' this)
             else if tok_value token = JStr (str ''['') then Inr (push ''array'' this)
             else if tok_type token \<noteq> ''sep'' then Inr (addValue (Prim (tok_value token)) this)
             else if tok_value token = JStr (str '':'') then
               (let lastVal = lastVal_of (heap this ! obj)
                in if is_key_candidate lastVal then
                     Inr (this\<lparr>heap := (heap this)
                       [obj := (heap this ! obj)\<lparr>tree_values :=
                          butlast (tree_values (heap this ! obj))
                            @ [KeyVal (case lastVal of
                                         Some (Prim v) \<Rightarrow> toString num_toString v
                                       | _ \<Rightarrow> [])
                                      (Prim JUndefined)]\<rparr>]\<rparr>)
                   else Inr this)
             else if tok_value token = JStr (str '','') then
               (if lastToken this \<noteq> None \<and> tok_value (the (lastToken this)) = JStr (str '','')
                then Inr (addValue (Prim (JStr [])) this)
                else Inr this)
             else if tok_value token = JStr (str ''}'') \<or> tok_value token = JStr (str '']'') then
               pop (if tok_value token = JStr (str ''}'') then ''object'' else ''array'') token this
             else Inr this)
      in case result of
           Inl e \<Rightarrow> Inl e
         | Inr this' \<Rightarrow> Inr (this'\<lparr>lastToken := Some token\<rparr>))"

text \<open>One call of \<^verbatim>\<open>process\<close> for each token of a document, in order, up to the first error.\<close>

fun process_all ::
  "(real \<Rightarrow> jsstring) \<Rightarrow> Token list \<Rightarrow> ASTParser \<Rightarrow> parser_error + ASTParser" where
  "process_all num_toString [] this = Inr this"
| "process_all num_toString (token # tokens) this =
     (case process num_toString token this of
        Inl e \<Rightarrow> Inl e
      | Inr this' \<Rightarrow> process_all num_toString tokens this')"

text \<open>
  \<^verbatim>\<open>generateObject\<close> inside \<^verbatim>\<open>toObject\<close> (its parameter \<^verbatim>\<open>root\<close> is \<open>root_t\<close>, the address of
  the tree). The container it fills is the list of the
  assignments \<^verbatim>\<open>container[index] = ...\<close> and \<^verbatim>\<open>container[value.key] = ...\<close> in the order
  made (a later assignment to the same property replaces an earlier one), and whether
  it began as \<^verbatim>\<open>[]\<close> or \<^verbatim>\<open>{}\<close>. The recursion follows addresses of the store, so it has
  fuel: \<open>None\<close> is a descent deeper than the fuel, which in a store of \<open>n\<close> containers
  without a cycle does not happen with fuel \<open>n\<close>.
\<close>

datatype property = Index nat | Key jsstring

datatype container =
    Raw node
  | Container bool "(property \<times> container) list"

fun sequence_options :: "'a option list \<Rightarrow> 'a list option" where
  "sequence_options [] = Some []"
| "sequence_options (None # xs) = None"
| "sequence_options (Some x # xs) = map_option ((#) x) (sequence_options xs)"

fun generateObject :: "nat \<Rightarrow> ASTParserTree list \<Rightarrow> nat \<Rightarrow> bool \<Rightarrow> container option" where
  "generateObject 0 h root_t is_array = None"
| "generateObject (Suc fuel) h root_t is_array =
     map_option (\<lambda>assignments. Container is_array (concat assignments))
       (sequence_options
          (map (\<lambda>(index, value).
                  case value of
                    Tree a \<Rightarrow>
                      if tree_type (h ! a) = ''object'' then
                        map_option (\<lambda>c. [(Index index, c)]) (generateObject fuel h a False)
                      else if tree_type (h ! a) = ''array'' then
                        map_option (\<lambda>c. [(Index index, c)]) (generateObject fuel h a True)
                      else Some []
                  | KeyVal k (Tree a) \<Rightarrow>
                      map_option (\<lambda>c. [(Key k, c)])
                        (generateObject fuel h a (tree_type (h ! a) \<noteq> ''object''))
                  | KeyVal k v \<Rightarrow> Some [(Key k, Raw v)]
                  | Prim v \<Rightarrow> Some [(Index index, Raw value)])
               (zip [0 ..< length (tree_values (h ! root_t))] (tree_values (h ! root_t)))))"

text \<open>\<^verbatim>\<open>toObject\<close>: \<^verbatim>\<open>null\<close>, \<^verbatim>\<open>undefined\<close>, the only child as it is, or the generated object.\<close>

datatype toObject_result =
    Returns_null
  | Returns_undefined
  | Returns_child node
  | Returns_generated container

definition toObject :: "ASTParser \<Rightarrow> toObject_result option" where
  "toObject this =
     (if length (stack this) = 0 then Some Returns_null
      else let tree = heap this ! (stack this ! 0)
           in if length (tree_values tree) = 0 then Some Returns_undefined
              else if length (tree_values tree) = 1 then Some (Returns_child (tree_values tree ! 0))
              else map_option Returns_generated
                     (generateObject (length (heap this)) (heap this) (stack this ! 0) False))"

text \<open>
  For the statements about bracket nesting: the tokens that open a container and those
  that close one, as \<^verbatim>\<open>process\<close> tells them apart, and the number of containers open
  above the root after a token sequence (\<open>None\<close> when a closing token arrives with
  none open).
\<close>

definition is_open :: "Token \<Rightarrow> bool" where
  "is_open token = (tok_value token = JStr (str ''{'') \<or> tok_value token = JStr (str ''[''))"

definition is_close :: "Token \<Rightarrow> bool" where
  "is_close token =
     (\<not> is_open token \<and> tok_type token = ''sep''
      \<and> (tok_value token = JStr (str ''}'') \<or> tok_value token = JStr (str '']'')))"

fun nesting :: "nat \<Rightarrow> Token list \<Rightarrow> nat option" where
  "nesting k [] = Some k"
| "nesting k (token # tokens) =
     (if is_open token then nesting (Suc k) tokens
      else if is_close token then (if k = 0 then None else nesting (k - 1) tokens)
      else nesting k tokens)"

text \<open>
  The container a closing token meets (the top of the stack as \<^verbatim>\<open>getObject\<close> gives it) and
  the container type the token closes: \<^verbatim>\<open>object\<close> for \<^verbatim>\<open>}\<close>, \<^verbatim>\<open>array\<close> for \<^verbatim>\<open>]\<close>.
\<close>

definition top_container :: "ASTParser \<Rightarrow> ASTParserTree" where
  "top_container this = heap (snd (getObject this)) ! fst (getObject this)"

definition closes :: "Token \<Rightarrow> string" where
  "closes token = (if tok_value token = JStr (str ''}'') then ''object'' else ''array'')"

definition stack_depth :: "parser_error + ASTParser \<Rightarrow> nat option" where
  "stack_depth r = (case r of Inl e \<Rightarrow> None | Inr this \<Rightarrow> Some (length (stack this)))"

text \<open>A separator token and a value token, for the examples.\<close>

definition sep :: "string \<Rightarrow> Token" where
  "sep s = \<lparr>tok_value = JStr (str s), tok_type = ''sep'', tok_index = 0, tok_row = 1, tok_col = 1\<rparr>"

definition string_token :: "string \<Rightarrow> Token" where
  "string_token s =
     \<lparr>tok_value = JStr (str s), tok_type = ''string'', tok_index = 0, tok_row = 1, tok_col = 1\<rparr>"

text \<open>
  For the examples as well: a printing of numbers (none of the examples prints one) and
  the member definition of a type with no constraint set.
\<close>

definition num_toString_example :: "real \<Rightarrow> jsstring" where
  "num_toString_example x = []"

definition plain_memberDef :: "string \<Rightarrow> memberDef" where
  "plain_memberDef t =
     \<lparr>type = t, path = ''member'', optional = False, null_md = False,
      default_md = JUndefined, choices = None, min_md = None, max_md = None,
      minLength = JUndefined, maxLength = JUndefined, pattern = None, re = None\<rparr>"

section \<open>The tokenizer\<close>

subsection \<open>Characters\<close>

text \<open>
  \<^verbatim>\<open>this.input[i]\<close>: \<open>None\<close> is \<^verbatim>\<open>undefined\<close>, the result past the end of the input.
  \<^verbatim>\<open>value += this.input[i]\<close> appends the text \<^verbatim>\<open>undefined\<close> in that case. \<^verbatim>\<open>substring\<close>
  clamps its arguments to the length and swaps them when the first is the larger.
\<close>

definition charAt :: "jsstring \<Rightarrow> nat \<Rightarrow> 16 word option" where
  "charAt s i = (if i < length s then Some (s ! i) else None)"

definition js_append :: "jsstring \<Rightarrow> 16 word option \<Rightarrow> jsstring" where
  "js_append s c = (case c of None \<Rightarrow> s @ str ''undefined'' | Some x \<Rightarrow> s @ [x])"

definition substring :: "jsstring \<Rightarrow> nat \<Rightarrow> nat \<Rightarrow> jsstring" where
  "substring s a b =
     (let a' = min a (length s); b' = min b (length s)
      in take (max a' b' - min a' b') (drop (min a' b') s))"

text \<open>Modelled from the spec: the constants of \<^verbatim>\<open>./symbols\<close>, which is not under \<^verbatim>\<open>src/\<close>.\<close>

definition BACKSLASH :: "16 word" where "BACKSLASH = 0x5C"
definition HASH :: "16 word" where "HASH = 0x23"
definition DOUBLE_QUOTE :: "16 word" where "DOUBLE_QUOTE = 0x22"
definition SINGLE_QUOTE :: "16 word" where "SINGLE_QUOTE = 0x27"
definition PLUS :: "16 word" where "PLUS = 0x2B"
definition MINUS :: "16 word" where "MINUS = 0x2D"
definition NEWLINE :: "16 word" where "NEWLINE = 0x0A"

text \<open>
  Modelled from the spec: the predicates of the tokenizer's \<^verbatim>\<open>./is\<close>, which is not under
  \<^verbatim>\<open>src/\<close> (section 4.1): white space is space, tab, CR, LF, form feed, vertical tab,
  NBSP and BOM; the special symbols are \<^verbatim>\<open>{ } [ ] , : ~\<close>; a character may stand in an
  open string when it is not a special symbol, not a quote, not \<^verbatim>\<open>#\<close> and not the end of
  the input.
\<close>

definition isWhitespace :: "16 word option \<Rightarrow> bool" where
  "isWhitespace c =
     (case c of
        None \<Rightarrow> False
      | Some x \<Rightarrow> x \<in> {0x20, 0x09, 0x0D, 0x0A, 0x0C, 0x0B, 0xA0, 0xFEFF})"

definition isDigit :: "16 word option \<Rightarrow> bool" where
  "isDigit c = (case c of None \<Rightarrow> False | Some x \<Rightarrow> 0x30 \<le> x \<and> x \<le> 0x39)"

definition isSpecialSymbol :: "16 word option \<Rightarrow> bool" where
  "isSpecialSymbol c = (case c of None \<Rightarrow> False | Some x \<Rightarrow> x \<in> set (str ''{}[],:~''))"

definition isValidOpenStringChar :: "16 word option \<Rightarrow> bool" where
  "isValidOpenStringChar c =
     (c \<noteq> None \<and> \<not> isSpecialSymbol c \<and> c \<noteq> Some DOUBLE_QUOTE \<and> c \<noteq> Some SINGLE_QUOTE
      \<and> c \<noteq> Some HASH)"

text \<open>
  Modelled from the spec: \<^verbatim>\<open>TokenType\<close> (\<^verbatim>\<open>./token-types\<close>) and \<^verbatim>\<open>getSymbolTokenType\<close>, not
  under \<^verbatim>\<open>src/\<close>. A token type is the string of its name, as the literal \<^verbatim>\<open>"STRING"\<close> in
  \<^verbatim>\<open>parseRegularString\<close>.
\<close>

definition getSymbolTokenType :: "16 word \<Rightarrow> string" where
  "getSymbolTokenType c =
     (if [c] = str ''{'' then ''CURLY_OPEN''
      else if [c] = str ''}'' then ''CURLY_CLOSE''
      else if [c] = str ''['' then ''BRACKET_OPEN''
      else if [c] = str '']'' then ''BRACKET_CLOSE''
      else if [c] = str '','' then ''COMMA''
      else if [c] = str '':'' then ''COLON''
      else ''TILDE'')"

text \<open>
  The regular expressions of the tokenizer, as \<^verbatim>\<open>test\<close> reads its argument.
  \<^verbatim>\<open>regexHex4\<close> and \<^verbatim>\<open>regexHex2\<close> are anchored. The others test one character
  \<^verbatim>\<open>this.input[this.pos]\<close>; past the end of the input \<^verbatim>\<open>test\<close> reads the text
  \<^verbatim>\<open>undefined\<close>, which holds no decimal digit and no dot but the hexadecimal digits
  \<^verbatim>\<open>d\<close>, \<^verbatim>\<open>e\<close> and \<^verbatim>\<open>f\<close>.
\<close>

definition hex_digit :: "16 word \<Rightarrow> bool" where
  "hex_digit x = ((0x30 \<le> x \<and> x \<le> 0x39) \<or> (0x61 \<le> x \<and> x \<le> 0x66) \<or> (0x41 \<le> x \<and> x \<le> 0x46))"

definition regexHex4 :: "jsstring \<Rightarrow> bool" where
  "regexHex4 s = (length s = 4 \<and> list_all hex_digit s)"

definition regexHex2 :: "jsstring \<Rightarrow> bool" where
  "regexHex2 s = (length s = 2 \<and> list_all hex_digit s)"

definition test_hex :: "16 word option \<Rightarrow> bool" where
  "test_hex c = (case c of None \<Rightarrow> True | Some x \<Rightarrow> hex_digit x)"

definition test_octal :: "16 word option \<Rightarrow> bool" where
  "test_octal c = (case c of None \<Rightarrow> False | Some x \<Rightarrow> 0x30 \<le> x \<and> x \<le> 0x37)"

definition test_binary :: "16 word option \<Rightarrow> bool" where
  "test_binary c = (case c of None \<Rightarrow> False | Some x \<Rightarrow> x = 0x30 \<or> x = 0x31)"

definition test_digit :: "16 word option \<Rightarrow> bool" where
  "test_digit c = (case c of None \<Rightarrow> False | Some x \<Rightarrow> 0x30 \<le> x \<and> x \<le> 0x39)"

definition test_digit_or_dot :: "16 word option \<Rightarrow> bool" where
  "test_digit_or_dot c =
     (case c of None \<Rightarrow> False | Some x \<Rightarrow> (0x30 \<le> x \<and> x \<le> 0x39) \<or> x = 0x2E)"

subsection \<open>Numbers\<close>

text \<open>
  The value of a \<^verbatim>\<open>NUMBER\<close> token. \<^verbatim>\<open>parseInt\<close> gives an integer, or \<^verbatim>\<open>NaN\<close> when no
  digit follows the sign and the prefix; the rounding of an integer beyond \<open>2^53\<close> to a
  double is not modelled. \<^verbatim>\<open>parseFloat\<close> is not computed: \<open>ParseFloat s\<close> is the double
  it returns on the text \<open>s\<close>.
\<close>

datatype number_value = IntegerValue int | NaN | ParseFloat jsstring

definition digit_of :: "16 word \<Rightarrow> nat option" where
  "digit_of x =
     (if 0x30 \<le> x \<and> x \<le> 0x39 then Some (unat x - 0x30)
      else if 0x61 \<le> x \<and> x \<le> 0x7A then Some (unat x - 0x61 + 10)
      else if 0x41 \<le> x \<and> x \<le> 0x5A then Some (unat x - 0x41 + 10)
      else None)"

definition digits_value :: "nat \<Rightarrow> jsstring \<Rightarrow> nat" where
  "digits_value radix ds = foldl (\<lambda>a x. radix * a + the (digit_of x)) 0 ds"

text \<open>
  \<^verbatim>\<open>parseInt(s, radix)\<close> for the radices 2, 8, 10 and 16 of the tokenizer: an optional
  sign, for radix 16 an optional \<^verbatim>\<open>0x\<close> or \<^verbatim>\<open>0X\<close>, then the longest run of digits of the
  radix. (The texts the tokenizer passes do not start with white space.)
\<close>

definition parseInt :: "jsstring \<Rightarrow> nat \<Rightarrow> number_value" where
  "parseInt s radix =
     (let negative = (take 1 s = [MINUS]);
          s1 = (if take 1 s = [MINUS] \<or> take 1 s = [PLUS] then drop 1 s else s);
          s2 = (if radix = 16 \<and> (take 2 s1 = str ''0x'' \<or> take 2 s1 = str ''0X'')
                then drop 2 s1 else s1);
          ds = takeWhile (\<lambda>x. case digit_of x of None \<Rightarrow> False | Some d \<Rightarrow> d < radix) s2
      in if ds = [] then NaN
         else IntegerValue ((if negative then - 1 else 1) * int (digits_value radix ds)))"

text \<open>\<^verbatim>\<open>String.fromCharCode(parseInt(hex, 16))\<close> for a text of hexadecimal digits.\<close>

definition fromCharCode_hex :: "jsstring \<Rightarrow> 16 word" where
  "fromCharCode_hex hex = of_nat (digits_value 16 hex)"

subsection \<open>Tokens and the state of the tokenizer\<close>

text \<open>
  The value a token carries: a string (also the text of a symbol and of \<^verbatim>\<open>---\<close>), a
  boolean, \<^verbatim>\<open>null\<close>, a number, or the bytes of a byte string. \<^verbatim>\<open>Buffer.from(s, 'base64')\<close>
  is not computed: \<open>Base64 s\<close> is the buffer it returns on the text \<open>s\<close>.
\<close>

datatype token_value =
    StringValue jsstring
  | BooleanValue bool
  | NullValue
  | NumberValue number_value
  | Base64 jsstring

text \<open>
  Modelled from the spec: the class \<^verbatim>\<open>Token\<close> of \<^verbatim>\<open>./tokens\<close>, not under \<^verbatim>\<open>src/\<close>, with the
  fields of the constructor call
  \<^verbatim>\<open>new Token(position, row, col, text, value, type, subType)\<close>.
\<close>

record token =
  token_pos :: nat
  token_row :: nat
  token_col :: nat
  token_text :: jsstring
  token_value :: token_value
  token_type :: string
  token_subType :: "string option"

text \<open>The fields of \<^verbatim>\<open>class Tokenizer\<close> that change; \<^verbatim>\<open>input\<close> is a parameter of each function.\<close>

record Tokenizer =
  pos :: nat
  row :: nat
  col :: nat
  reachedEnd :: bool

definition new_Tokenizer :: Tokenizer where
  "new_Tokenizer = \<lparr>pos = 0, row = 1, col = 1, reachedEnd = False\<rparr>"

text \<open>What the tokenizer throws: one constructor for each \<^verbatim>\<open>throw new Error(...)\<close>.\<close>

datatype tokenizer_error =
    UnprocessedEscape
  | InvalidUnicodeEscape jsstring
  | InvalidHexEscape jsstring
  | StringNotClosed
  | UnexpectedEndAfterR
  | ExpectedQuoteAfterR
  | RawStringNotClosed
  | UnexpectedEndAfterB
  | ExpectedQuoteAfterB
  | BinaryStringNotClosed
  | UnexpectedCharacter

subsection \<open>\<^verbatim>\<open>advance\<close>\<close>

text \<open>
  \<^verbatim>\<open>advance(step)\<close>: nothing when the end has been reached; otherwise up to \<open>step\<close>
  characters, stopping when the position reaches the length of the input.
  \<open>advance_char\<close> is the body of its loop before the test of the end.
\<close>

definition advance_char :: "jsstring \<Rightarrow> Tokenizer \<Rightarrow> Tokenizer" where
  "advance_char input this =
     (let this1 = (if charAt input (pos this) = Some NEWLINE
                   then this\<lparr>row := row this + 1, col := 1\<rparr>
                   else this\<lparr>col := col this + 1\<rparr>)
      in this1\<lparr>pos := pos this1 + 1\<rparr>)"

fun advance_loop :: "jsstring \<Rightarrow> nat \<Rightarrow> Tokenizer \<Rightarrow> Tokenizer" where
  "advance_loop input 0 this = this"
| "advance_loop input (Suc i) this =
     (let this2 = advance_char input this
      in if pos this2 \<ge> length input then this2\<lparr>reachedEnd := True\<rparr>
         else advance_loop input i this2)"

definition advance :: "jsstring \<Rightarrow> nat \<Rightarrow> Tokenizer \<Rightarrow> Tokenizer" where
  "advance input step this = (if reachedEnd this then this else advance_loop input step this)"

text \<open>
  The measure of the loops: what is left of the input, and nothing once the end has been
  reached. A call of \<^verbatim>\<open>advance\<close> never raises it, and lowers it when the end has not
  been reached.
\<close>

definition remaining :: "jsstring \<Rightarrow> Tokenizer \<Rightarrow> nat" where
  "remaining input this = (if reachedEnd this then 0 else Suc (length input - pos this))"

lemma advance_char_simps [simp]:
  "pos (advance_char input this) = Suc (pos this)"
  "reachedEnd (advance_char input this) = reachedEnd this"
  by (simp_all add: advance_char_def)

lemma advance_loop_remaining:
  "\<not> reachedEnd this \<Longrightarrow> remaining input (advance_loop input n this) \<le> remaining input this"
proof (induction n arbitrary: this)
  case 0
  then show ?case by simp
next
  case (Suc n)
  show ?case
    using Suc.prems Suc.IH [of "advance_char input this"]
    by (auto simp: remaining_def Let_def)
qed

lemma advance_remaining_le:
  "remaining input (advance input n this) \<le> remaining input this"
  by (simp add: advance_def advance_loop_remaining)

lemma advance_remaining_less:
  assumes "\<not> reachedEnd this"
  shows "remaining input (advance input (Suc n) this) < remaining input this"
proof (cases "length input \<le> pos this + 1")
  case True
  then show ?thesis using assms by (simp add: advance_def remaining_def Let_def)
next
  case False
  have r: "\<not> reachedEnd (advance_char input this)" using assms by simp
  have "remaining input (advance_char input this) < remaining input this"
    using assms False by (auto simp: remaining_def)
  moreover have "advance input (Suc n) this = advance_loop input n (advance_char input this)"
    using assms False by (simp add: advance_def Let_def)
  ultimately show ?thesis
    using advance_loop_remaining [OF r, of input n] by simp
qed

lemma advance_one_less:
  "\<not> reachedEnd this \<Longrightarrow>
   remaining input (advance input (Suc 0) this) < remaining input this"
  by (rule advance_remaining_less)

lemma advance_escape_less:
  assumes "\<not> reachedEnd this"
  shows "remaining input (advance input (Suc 0) (advance input n (advance input (Suc 0) this)))
           < remaining input this"
  using advance_one_less [OF assms, of input]
    advance_remaining_le [of input n "advance input (Suc 0) this"]
    advance_remaining_le [of input "Suc 0" "advance input n (advance input (Suc 0) this)"]
  by linarith

lemma advance_two_less:
  assumes "\<not> reachedEnd this"
  shows "remaining input (advance input (Suc 0) (advance input (Suc 0) this))
           < remaining input this"
  using advance_one_less [OF assms, of input]
    advance_remaining_le [of input "Suc 0" "advance input (Suc 0) this"]
  by linarith

subsection \<open>Comments and strings\<close>

function parseSingleLineComment :: "jsstring \<Rightarrow> Tokenizer \<Rightarrow> Tokenizer" where
  "parseSingleLineComment input this =
     (if \<not> reachedEnd this \<and> charAt input (pos this) \<noteq> Some NEWLINE
      then parseSingleLineComment input (advance input 1 this)
      else this)"
  by pat_completeness auto
termination
  by (relation "measure (\<lambda>(input, this). remaining input this)")
     (auto simp: advance_one_less)

declare parseSingleLineComment.simps [simp del]

text \<open>
  The loop of \<^verbatim>\<open>parseRegularString\<close>, with the variables \<^verbatim>\<open>value\<close> and
  \<^verbatim>\<open>needToNormalize\<close> it changes. It ends at the closing quote or at the end of the
  input, or with the error of an escape.
\<close>

function regular_string_loop ::
  "jsstring \<Rightarrow> 16 word \<Rightarrow> Tokenizer \<Rightarrow> jsstring \<Rightarrow> bool
     \<Rightarrow> tokenizer_error + (Tokenizer \<times> jsstring \<times> bool)" where
  "regular_string_loop input encloser this value needToNormalize =
     (if \<not> reachedEnd this \<and> charAt input (pos this) \<noteq> Some encloser then
        (if charAt input (pos this) = Some BACKSLASH then
           (let this1 = advance input 1 this
            in if reachedEnd this1 then Inl UnprocessedEscape
               else if charAt input (pos this1) = Some 0x62 then
                 regular_string_loop input encloser (advance input 1 this1)
                   (value @ [0x08]) needToNormalize
               else if charAt input (pos this1) = Some 0x66 then
                 regular_string_loop input encloser (advance input 1 this1)
                   (value @ [0x0C]) needToNormalize
               else if charAt input (pos this1) = Some 0x6E then
                 regular_string_loop input encloser (advance input 1 this1)
                   (value @ [0x0A]) needToNormalize
               else if charAt input (pos this1) = Some 0x72 then
                 regular_string_loop input encloser (advance input 1 this1)
                   (value @ [0x0D]) needToNormalize
               else if charAt input (pos this1) = Some 0x74 then
                 regular_string_loop input encloser (advance input 1 this1)
                   (value @ [0x09]) needToNormalize
               else if charAt input (pos this1) = Some 0x75 then
                 (let hex = substring input (pos this1 + 1) (pos this1 + 5)
                  in if regexHex4 hex then
                       regular_string_loop input encloser
                         (advance input 1 (advance input 4 this1))
                         (value @ [fromCharCode_hex hex]) True
                     else Inl (InvalidUnicodeEscape hex))
               else if charAt input (pos this1) = Some 0x78 then
                 (let hexByte = substring input (pos this1 + 1) (pos this1 + 3)
                  in if regexHex2 hexByte then
                       regular_string_loop input encloser
                         (advance input 1 (advance input 2 this1))
                         (value @ [fromCharCode_hex hexByte]) True
                     else Inl (InvalidHexEscape hexByte))
               else
                 regular_string_loop input encloser (advance input 1 this1)
                   (js_append value (charAt input (pos this1))) needToNormalize)
         else
           regular_string_loop input encloser (advance input 1 this)
             (js_append value (charAt input (pos this))) needToNormalize)
      else Inr (this, value, needToNormalize))"
  by pat_completeness auto
termination
  by (relation
        "measure (\<lambda>(input, encloser, this, value, needToNormalize). remaining input this)")
     (auto simp: advance_one_less advance_two_less advance_escape_less)

declare regular_string_loop.simps [simp del]

text \<open>
  \<^verbatim>\<open>parseRegularString\<close>. \<^verbatim>\<open>value.normalize('NFC')\<close> is the parameter \<open>normalize_NFC\<close> of
  the model. The text of the token is built from the decoded value, before it is
  normalized.
\<close>

definition parseRegularString ::
  "(jsstring \<Rightarrow> jsstring) \<Rightarrow> jsstring \<Rightarrow> 16 word \<Rightarrow> Tokenizer
     \<Rightarrow> tokenizer_error + (token \<times> Tokenizer)" where
  "parseRegularString normalize_NFC input encloser this =
     (let start = pos this; startRow = row this; startCol = col this;
          this1 = advance input 1 this
      in case regular_string_loop input encloser this1 [] False of
           Inl e \<Rightarrow> Inl e
         | Inr (this2, value, needToNormalize) \<Rightarrow>
             if reachedEnd this2 then Inl StringNotClosed
             else
               (let this3 = advance input 1 this2;
                    tokenText = [encloser] @ value @ [encloser];
                    value' = (if needToNormalize then normalize_NFC value else value)
                in Inr (\<lparr>token_pos = start, token_row = startRow, token_col = startCol,
                          token_text = tokenText, token_value = StringValue value',
                          token_type = ''STRING'', token_subType = Some ''REGULAR_STRING''\<rparr>,
                        this3)))"

text \<open>The loop of \<^verbatim>\<open>parseRawString\<close> and of \<^verbatim>\<open>parseByteString\<close>: up to the closing quote.\<close>

function skip_to_encloser :: "jsstring \<Rightarrow> 16 word \<Rightarrow> Tokenizer \<Rightarrow> Tokenizer" where
  "skip_to_encloser input encloser this =
     (if \<not> reachedEnd this \<and> charAt input (pos this) \<noteq> Some encloser
      then skip_to_encloser input encloser (advance input 1 this)
      else this)"
  by pat_completeness auto
termination
  by (relation "measure (\<lambda>(input, encloser, this). remaining input this)")
     (auto simp: advance_one_less)

declare skip_to_encloser.simps [simp del]

definition parseRawString :: "jsstring \<Rightarrow> Tokenizer \<Rightarrow> tokenizer_error + (token \<times> Tokenizer)" where
  "parseRawString input this =
     (let start = pos this; startRow = row this; startCol = col this;
          this1 = advance input 1 this
      in if reachedEnd this1 then Inl UnexpectedEndAfterR
         else case charAt input (pos this1) of
                None \<Rightarrow> Inl ExpectedQuoteAfterR
              | Some encloser \<Rightarrow>
                  if encloser \<noteq> DOUBLE_QUOTE \<and> encloser \<noteq> SINGLE_QUOTE
                  then Inl ExpectedQuoteAfterR
                  else
                    (let this2 = skip_to_encloser input encloser (advance input 1 this1)
                     in if reachedEnd this2 then Inl RawStringNotClosed
                        else
                          (let this3 = advance input 1 this2;
                               tokenText = substring input start (pos this3);
                               value = substring tokenText 2 (length tokenText - 1)
                           in Inr (\<lparr>token_pos = start, token_row = startRow,
                                     token_col = startCol, token_text = tokenText,
                                     token_value = StringValue value,
                                     token_type = ''STRING'',
                                     token_subType = Some ''RAW_STRING''\<rparr>,
                                   this3))))"

definition parseByteString :: "jsstring \<Rightarrow> Tokenizer \<Rightarrow> tokenizer_error + (token \<times> Tokenizer)" where
  "parseByteString input this =
     (let start = pos this; startRow = row this; startCol = col this;
          this1 = advance input 1 this
      in if reachedEnd this1 then Inl UnexpectedEndAfterB
         else case charAt input (pos this1) of
                None \<Rightarrow> Inl ExpectedQuoteAfterB
              | Some encloser \<Rightarrow>
                  if encloser \<noteq> DOUBLE_QUOTE \<and> encloser \<noteq> SINGLE_QUOTE
                  then Inl ExpectedQuoteAfterB
                  else
                    (let this2 = skip_to_encloser input encloser (advance input 1 this1)
                     in if reachedEnd this2 then Inl BinaryStringNotClosed
                        else
                          (let this3 = advance input 1 this2;
                               tokenText = substring input start (pos this3);
                               base64 = substring tokenText 2 (length tokenText - 1)
                           in Inr (\<lparr>token_pos = start, token_row = startRow,
                                     token_col = startCol, token_text = tokenText,
                                     token_value = Base64 base64,
                                     token_type = ''BINARY'',
                                     token_subType = Some ''BINARY''\<rparr>,
                                   this3))))"


subsection \<open>\<^verbatim>\<open>parseNumber\<close>\<close>

text \<open>
  A loop \<^verbatim>\<open>while (/.../.test(this.input[this.pos])) { value += ...; this.advance() }\<close>
  of \<^verbatim>\<open>parseNumber\<close>. The loop does not look at \<^verbatim>\<open>reachedEnd\<close>: once the end has been
  reached \<^verbatim>\<open>advance\<close> does nothing, so if the test still holds there the loop never
  ends, which is the result \<open>None\<close>.
\<close>

function scan_while ::
  "(16 word option \<Rightarrow> bool) \<Rightarrow> jsstring \<Rightarrow> Tokenizer \<Rightarrow> jsstring
     \<Rightarrow> (jsstring \<times> Tokenizer) option" where
  "scan_while test input this value =
     (if test (charAt input (pos this)) then
        (if reachedEnd this then None
         else scan_while test input (advance input 1 this)
                (js_append value (charAt input (pos this))))
      else Some (value, this))"
  by pat_completeness auto
termination
  by (relation "measure (\<lambda>(test, input, this, value). remaining input this)")
     (auto simp: advance_one_less)

declare scan_while.simps [simp del]

text \<open>
  The part of \<^verbatim>\<open>parseNumber\<close> after the sign: it gives \<^verbatim>\<open>value\<close>, the state, \<^verbatim>\<open>base\<close>,
  whether \<^verbatim>\<open>hasDecimal || hasExponent\<close>, and \<^verbatim>\<open>subType\<close>.
\<close>

definition number_body ::
  "jsstring \<Rightarrow> Tokenizer \<Rightarrow> jsstring
     \<Rightarrow> (jsstring \<times> Tokenizer \<times> nat \<times> bool \<times> string option) option" where
  "number_body input this value =
     (if charAt input (pos this) = Some 0x30 then
        (if charAt input (pos this + 1) = Some 0x58 \<or> charAt input (pos this + 1) = Some 0x78
         then
           (case scan_while test_hex input (advance input 2 this)
                   (js_append (js_append value (charAt input (pos this)))
                      (charAt input (pos this + 1))) of
              None \<Rightarrow> None
            | Some (value', this') \<Rightarrow> Some (value', this', 16, False, Some ''HEX''))
         else if charAt input (pos this + 1) = Some 0x43
                 \<or> charAt input (pos this + 1) = Some 0x63
         then
           (case scan_while test_octal input (advance input 2 this)
                   (js_append (js_append value (charAt input (pos this)))
                      (charAt input (pos this + 1))) of
              None \<Rightarrow> None
            | Some (value', this') \<Rightarrow> Some (value', this', 8, False, Some ''OCTAL''))
         else if charAt input (pos this + 1) = Some 0x42
                 \<or> charAt input (pos this + 1) = Some 0x62
         then
           (case scan_while test_binary input (advance input 2 this)
                   (js_append (js_append value (charAt input (pos this)))
                      (charAt input (pos this + 1))) of
              None \<Rightarrow> None
            | Some (value', this') \<Rightarrow> Some (value', this', 2, False, Some ''BINARY''))
         else
           (case scan_while test_digit_or_dot input this value of
              None \<Rightarrow> None
            | Some (value', this') \<Rightarrow> Some (value', this', 10, False, None)))
      else
        (case scan_while test_digit input this value of
           None \<Rightarrow> None
         | Some (value1, this1) \<Rightarrow>
             (case (if charAt input (pos this1) = Some 0x2E
                    then map_option (\<lambda>(v, t). (v, t, True))
                           (scan_while test_digit input (advance input 1 this1)
                              (value1 @ str ''.''))
                    else Some (value1, this1, False)) of
                None \<Rightarrow> None
              | Some (value2, this2, hasDecimal) \<Rightarrow>
                  if charAt input (pos this2) = Some 0x65 \<or> charAt input (pos this2) = Some 0x45
                  then
                    (let value3 = js_append value2 (charAt input (pos this2));
                         this3 = advance input 1 this2;
                         signed = (charAt input (pos this3) = Some PLUS
                                   \<or> charAt input (pos this3) = Some MINUS);
                         value4 = (if signed then js_append value3 (charAt input (pos this3))
                                   else value3);
                         this4 = (if signed then advance input 1 this3 else this3)
                     in case scan_while test_digit input this4 value4 of
                          None \<Rightarrow> None
                        | Some (value5, this5) \<Rightarrow> Some (value5, this5, 10, True, None))
                  else Some (value2, this2, 10, hasDecimal, None))))"

text \<open>
  \<^verbatim>\<open>parseNumber\<close>: \<open>None\<close> when a loop never ends, \<open>Some (None, this)\<close> for the result
  \<^verbatim>\<open>null\<close>. The digit after the sign is asked for after \<^verbatim>\<open>-\<close> only.
\<close>

definition parseNumber :: "jsstring \<Rightarrow> Tokenizer \<Rightarrow> (token option \<times> Tokenizer) option" where
  "parseNumber input this =
     (let start = pos this; startRow = row this; startCol = col this
      in if charAt input (pos this) = Some MINUS \<and> \<not> isDigit (charAt input (pos this + 1))
         then Some (None, this)
         else
           (let value1 = (if charAt input (pos this) = Some MINUS
                          then js_append [] (charAt input (pos this)) else []);
                this1 = (if charAt input (pos this) = Some MINUS
                         then advance input 1 this else this);
                value2 = (if charAt input (pos this1) = Some PLUS
                          then js_append value1 (charAt input (pos this1)) else value1);
                this2 = (if charAt input (pos this1) = Some PLUS
                         then advance input 1 this1 else this1)
            in case number_body input this2 value2 of
                 None \<Rightarrow> None
               | Some (value, this3, base, is_float, subType) \<Rightarrow>
                   Some (Some \<lparr>token_pos = start, token_row = startRow, token_col = startCol,
                               token_text = value,
                               token_value =
                                 NumberValue (if base = 10 \<and> is_float then ParseFloat value
                                              else parseInt value base),
                               token_type = ''NUMBER'', token_subType = subType\<rparr>,
                         this3)))"

subsection \<open>Literals and open strings\<close>

text \<open>
  The loop of \<^verbatim>\<open>parseLiteralOrOpenString\<close>, with the variable \<^verbatim>\<open>lastPos\<close> it changes. It
  stops before a character that cannot stand in an open string and before \<^verbatim>\<open>---\<close>.
\<close>

function open_string_loop :: "jsstring \<Rightarrow> Tokenizer \<Rightarrow> nat \<Rightarrow> Tokenizer \<times> nat" where
  "open_string_loop input this lastPos =
     (if \<not> reachedEnd this \<and> isValidOpenStringChar (charAt input (pos this)) then
        (if charAt input (pos this) = Some MINUS
            \<and> substring input (pos this) (pos this + 3) = str ''---''
         then (this, lastPos)
         else open_string_loop input (advance input 1 this)
                (if \<not> isWhitespace (charAt input (pos this)) then pos this else lastPos))
      else (this, lastPos))"
  by pat_completeness auto
termination
  by (relation "measure (\<lambda>(input, this, lastPos). remaining input this)")
     (auto simp: advance_one_less)

declare open_string_loop.simps [simp del]

text \<open>
  Modelled from the spec: the constants of \<^verbatim>\<open>./literals\<close>, not under \<^verbatim>\<open>src/\<close>:
  \<^verbatim>\<open>true\<close> and \<^verbatim>\<open>T\<close>, \<^verbatim>\<open>false\<close> and \<^verbatim>\<open>F\<close>, \<^verbatim>\<open>null\<close> and \<^verbatim>\<open>N\<close>.

  \<^verbatim>\<open>parseLiteralOrOpenString\<close>. The \<^verbatim>\<open>console.log\<close> of the value is an output and
  changes nothing here.
\<close>

definition parseLiteralOrOpenString ::
  "jsstring \<Rightarrow> Tokenizer \<Rightarrow> tokenizer_error + (token \<times> Tokenizer)" where
  "parseLiteralOrOpenString input this =
     (let start = pos this; startRow = row this; startCol = col this;
          startPos = pos this;
          (this1, lastPos) = open_string_loop input this (pos this);
          value = substring input startPos (lastPos + 1)
      in if value = [] then Inl UnexpectedCharacter
         else if value = str ''true'' \<or> value = str ''T'' then
           Inr (\<lparr>token_pos = start, token_row = startRow, token_col = startCol,
                  token_text = value, token_value = BooleanValue True,
                  token_type = ''BOOLEAN'', token_subType = None\<rparr>, this1)
         else if value = str ''false'' \<or> value = str ''F'' then
           Inr (\<lparr>token_pos = start, token_row = startRow, token_col = startCol,
                  token_text = value, token_value = BooleanValue False,
                  token_type = ''BOOLEAN'', token_subType = None\<rparr>, this1)
         else if value = str ''null'' \<or> value = str ''N'' then
           Inr (\<lparr>token_pos = start, token_row = startRow, token_col = startCol,
                  token_text = value, token_value = NullValue,
                  token_type = ''NULL'', token_subType = None\<rparr>, this1)
         else
           Inr (\<lparr>token_pos = start, token_row = startRow, token_col = startCol,
                  token_text = value, token_value = StringValue value,
                  token_type = ''STRING'', token_subType = Some ''OPEN_STRING''\<rparr>, this1))"

subsection \<open>\<^verbatim>\<open>tokenize\<close>\<close>

text \<open>
  One turn of the loop of \<^verbatim>\<open>tokenize\<close> at a position inside the input: the tokens it
  pushes and the state it leaves, an error, or \<open>None\<close> when \<^verbatim>\<open>parseNumber\<close> never
  returns.
\<close>

definition tokenize_step ::
  "(jsstring \<Rightarrow> jsstring) \<Rightarrow> jsstring \<Rightarrow> Tokenizer
     \<Rightarrow> (tokenizer_error + (token list \<times> Tokenizer)) option" where
  "tokenize_step normalize_NFC input this =
     (let char = charAt input (pos this)
      in if isWhitespace char then Some (Inr ([], advance input 1 this))
         else if char = Some HASH then Some (Inr ([], parseSingleLineComment input this))
         else if char = Some DOUBLE_QUOTE \<or> char = Some SINGLE_QUOTE then
           Some (map_sum id (\<lambda>(t, this'). ([t], this'))
                   (parseRegularString normalize_NFC input (the char) this))
         else if char = Some 0x72
                 \<and> (charAt input (pos this + 1) = Some DOUBLE_QUOTE
                      \<or> charAt input (pos this + 1) = Some SINGLE_QUOTE) then
           Some (map_sum id (\<lambda>(t, this'). ([t], this')) (parseRawString input this))
         else if char = Some 0x62
                 \<and> (charAt input (pos this + 1) = Some DOUBLE_QUOTE
                      \<or> charAt input (pos this + 1) = Some SINGLE_QUOTE) then
           Some (map_sum id (\<lambda>(t, this'). ([t], this')) (parseByteString input this))
         else if isSpecialSymbol char then
           Some (Inr ([\<lparr>token_pos = pos this, token_row = row this, token_col = col this,
                         token_text = [the char], token_value = StringValue [the char],
                         token_type = getSymbolTokenType (the char),
                         token_subType = None\<rparr>],
                      advance input 1 this))
         else if char = Some PLUS \<or> char = Some MINUS \<or> isDigit char then
           (if char = Some MINUS \<and> substring input (pos this) (pos this + 3) = str ''---''
            then
              Some (Inr ([\<lparr>token_pos = pos this, token_row = row this, token_col = col this,
                            token_text = str ''---'', token_value = StringValue (str ''---''),
                            token_type = ''SECTION_SEP'', token_subType = None\<rparr>],
                         advance input 3 this))
            else
              (case parseNumber input this of
                 None \<Rightarrow> None
               | Some (Some token, this') \<Rightarrow> Some (Inr ([token], this'))
               | Some (None, this') \<Rightarrow>
                   Some (map_sum id (\<lambda>(t, this''). ([t], this''))
                           (parseLiteralOrOpenString input this'))))
         else
           Some (map_sum id (\<lambda>(t, this'). ([t], this'))
                   (parseLiteralOrOpenString input this)))"

text \<open>
  The loop \<^verbatim>\<open>while (this.pos < this.input.length)\<close> of \<^verbatim>\<open>tokenize\<close>. \<open>None\<close> is a run that
  never returns.
\<close>

partial_function (option) tokenize_loop ::
  "(jsstring \<Rightarrow> jsstring) \<Rightarrow> jsstring \<Rightarrow> Tokenizer \<Rightarrow> token list
     \<Rightarrow> (tokenizer_error + token list) option" where
  "tokenize_loop normalize_NFC input this tokens =
     (if pos this < length input then
        (case tokenize_step normalize_NFC input this of
           None \<Rightarrow> None
         | Some (Inl e) \<Rightarrow> Some (Inl e)
         | Some (Inr (pushed, this')) \<Rightarrow>
             tokenize_loop normalize_NFC input this' (tokens @ pushed))
      else Some (Inr tokens))"

declare tokenize_loop.simps [code]

definition tokenize ::
  "(jsstring \<Rightarrow> jsstring) \<Rightarrow> jsstring \<Rightarrow> (tokenizer_error + token list) option" where
  "tokenize normalize_NFC input = tokenize_loop normalize_NFC input new_Tokenizer []"

text \<open>\<open>occurs_in xs ys\<close>: the text \<open>xs\<close> is a substring of the text \<open>ys\<close>.\<close>

definition occurs_in :: "jsstring \<Rightarrow> jsstring \<Rightarrow> bool" where
  "occurs_in xs ys = list_ex (\<lambda>i. take (length xs) (drop i ys) = xs) [0 ..< Suc (length ys)]"


subsection \<open>The specification of strings, to compare the tokenizer with\<close>

text \<open>
  The state of a tokenizer is consistent with its input when \<^verbatim>\<open>reachedEnd\<close> says whether
  the position is at the end. \<^verbatim>\<open>advance\<close> keeps it so, and a new tokenizer on an input
  that is not empty is consistent.
\<close>

definition consistent :: "jsstring \<Rightarrow> Tokenizer \<Rightarrow> bool" where
  "consistent input this = (reachedEnd this = (length input \<le> pos this))"

text \<open>
  Section 4.2.3 of the specification, on the text after the opening quote: \<^verbatim>\<open>\b \f \n \r \t\<close>
  decode to the control characters, \<^verbatim>\<open>\u\<close> takes exactly four hexadecimal digits and
  \<^verbatim>\<open>\x\<close> exactly two (else the string fails), any other escaped character stands for
  itself. \<open>spec_decode\<close> gives the decoded text up to the closing quote or the end of the
  input, whether a \<^verbatim>\<open>\u\<close> or \<^verbatim>\<open>\x\<close> escape was met, and the rest of the input from the
  closing quote on. \<open>spec_regular_string\<close> fails when the input ends before the closing
  quote, and normalizes the decoded text once when a \<^verbatim>\<open>\u\<close> or \<^verbatim>\<open>\x\<close> escape was met.
\<close>

definition simple_escape :: "16 word \<Rightarrow> 16 word" where
  "simple_escape e =
     (if [e] = str ''b'' then 0x08
      else if [e] = str ''f'' then 0x0C
      else if [e] = str ''n'' then 0x0A
      else if [e] = str ''r'' then 0x0D
      else if [e] = str ''t'' then 0x09
      else e)"

definition decoded ::
  "16 word \<Rightarrow> bool \<Rightarrow> tokenizer_error + (jsstring \<times> bool \<times> jsstring)
     \<Rightarrow> tokenizer_error + (jsstring \<times> bool \<times> jsstring)" where
  "decoded c numeric r =
     (case r of
        Inl e \<Rightarrow> Inl e
      | Inr (v, n, rest) \<Rightarrow> Inr (c # v, numeric \<or> n, rest))"

function spec_decode ::
  "16 word \<Rightarrow> jsstring \<Rightarrow> tokenizer_error + (jsstring \<times> bool \<times> jsstring)" where
  "spec_decode q [] = Inr ([], False, [])"
| "spec_decode q (c # cs) =
     (if c = q then Inr ([], False, c # cs)
      else if c \<noteq> BACKSLASH then decoded c False (spec_decode q cs)
      else (case cs of
              [] \<Rightarrow> Inl UnprocessedEscape
            | e # es \<Rightarrow>
                if [e] = str ''u'' then
                  (if length (take 4 es) = 4 \<and> list_all hex_digit (take 4 es)
                   then decoded (fromCharCode_hex (take 4 es)) True (spec_decode q (drop 4 es))
                   else Inl (InvalidUnicodeEscape (take 4 es)))
                else if [e] = str ''x'' then
                  (if length (take 2 es) = 2 \<and> list_all hex_digit (take 2 es)
                   then decoded (fromCharCode_hex (take 2 es)) True (spec_decode q (drop 2 es))
                   else Inl (InvalidHexEscape (take 2 es)))
                else decoded (simple_escape e) False (spec_decode q es)))"
  by pat_completeness auto
termination
  by (relation "measure (\<lambda>(q, s). length s)") auto

definition spec_regular_string ::
  "(jsstring \<Rightarrow> jsstring) \<Rightarrow> 16 word \<Rightarrow> jsstring \<Rightarrow> tokenizer_error + token_value" where
  "spec_regular_string normalize_NFC q body =
     (case spec_decode q body of
        Inl e \<Rightarrow> Inl e
      | Inr (v, numeric, rest) \<Rightarrow>
          if rest = [] then Inl StringNotClosed
          else Inr (StringValue (if numeric then normalize_NFC v else v)))"

text \<open>
  Section 4.2.5 of the specification: an open string is read while the character may
  stand in an open string and the next three characters are not \<^verbatim>\<open>---\<close>
  (\<open>open_span\<close>); its value is what was read without the white space at its end
  (\<open>rtrim\<close>); \<^verbatim>\<open>T\<close> and \<^verbatim>\<open>true\<close> are the boolean true, \<^verbatim>\<open>F\<close> and \<^verbatim>\<open>false\<close> the boolean
  false, \<^verbatim>\<open>N\<close> and \<^verbatim>\<open>null\<close> are null, any other value is a string of subtype
  \<^verbatim>\<open>OPEN_STRING\<close> (\<open>spec_literal\<close>: the value, the type and the subtype of the token).
\<close>

fun open_span :: "jsstring \<Rightarrow> jsstring" where
  "open_span [] = []"
| "open_span (c # cs) =
     (if isValidOpenStringChar (Some c) \<and> take 3 (c # cs) \<noteq> str ''---''
      then c # open_span cs else [])"

definition rtrim :: "jsstring \<Rightarrow> jsstring" where
  "rtrim s = rev (dropWhile (\<lambda>c. isWhitespace (Some c)) (rev s))"

definition spec_literal :: "jsstring \<Rightarrow> token_value \<times> string \<times> string option" where
  "spec_literal v =
     (if v = str ''T'' \<or> v = str ''true'' then (BooleanValue True, ''BOOLEAN'', None)
      else if v = str ''F'' \<or> v = str ''false'' then (BooleanValue False, ''BOOLEAN'', None)
      else if v = str ''N'' \<or> v = str ''null'' then (NullValue, ''NULL'', None)
      else (StringValue v, ''STRING'', Some ''OPEN_STRING''))"


text \<open>
  For the proofs: the index of the last character of a text that is not white space
  (\<open>None\<close> when there is none). For the examples: a stand-in for
  \<^verbatim>\<open>normalize('NFC')\<close> that marks its result with U+FFFE in front, so that an example
  shows whether, and how often, it was applied.
\<close>

fun last_nonws :: "jsstring \<Rightarrow> nat option" where
  "last_nonws [] = None"
| "last_nonws (c # cs) =
     (case last_nonws cs of
        Some k \<Rightarrow> Some (Suc k)
      | None \<Rightarrow> if isWhitespace (Some c) then None else Some 0)"

definition normalize_example :: "jsstring \<Rightarrow> jsstring" where
  "normalize_example s = 0xFFFE # s"

text \<open>
  The states in which the loop of \<^verbatim>\<open>tokenize\<close> calls \<^verbatim>\<open>parseLiteralOrOpenString\<close>: every
  earlier branch of the dispatch is not taken, and in the branch of numbers the
  character is a \<^verbatim>\<open>-\<close> that does not start \<^verbatim>\<open>---\<close> and has no digit after it.
\<close>

definition starts_open_string :: "jsstring \<Rightarrow> Tokenizer \<Rightarrow> bool" where
  "starts_open_string input this =
     (let char = charAt input (pos this)
      in char \<noteq> None \<and> \<not> isWhitespace char \<and> char \<noteq> Some HASH
         \<and> char \<noteq> Some DOUBLE_QUOTE \<and> char \<noteq> Some SINGLE_QUOTE
         \<and> \<not> (char = Some 0x72
               \<and> (charAt input (pos this + 1) = Some DOUBLE_QUOTE
                    \<or> charAt input (pos this + 1) = Some SINGLE_QUOTE))
         \<and> \<not> (char = Some 0x62
               \<and> (charAt input (pos this + 1) = Some DOUBLE_QUOTE
                    \<or> charAt input (pos this + 1) = Some SINGLE_QUOTE))
         \<and> \<not> isSpecialSymbol char
         \<and> (if char = Some PLUS \<or> char = Some MINUS \<or> isDigit char
              then char = Some MINUS
                   \<and> substring input (pos this) (pos this + 3) \<noteq> str ''---''
                   \<and> \<not> isDigit (charAt input (pos this + 1))
              else True))"

section \<open>Properties of the validators\<close>

lemma getValidator_float64:
  "getValidator ''float64'' = Inr (intValidator None None)"
  by (simp add: getValidator_def)

lemma getValidator_unsupported:
  "getValidator ''int64'' = Inr (\<lambda>memberDef value. Inl unsupportedNumberType)"
  "getValidator ''uint64'' = Inr (\<lambda>memberDef value. Inl unsupportedNumberType)"
  "getValidator ''float32'' = Inr (\<lambda>memberDef value. Inl unsupportedNumberType)"
  by (simp_all add: getValidator_def)

lemma getValidator_fixed_width:
  "getValidator ''int8'' = Inr (intValidator (Some (- (2 ^ 7))) (Some (2 ^ 7 - 1)))"
  "getValidator ''uint8'' = Inr (intValidator (Some 0) (Some (2 ^ 8 - 1)))"
  "getValidator ''int16'' = Inr (intValidator (Some (- (2 ^ 15))) (Some (2 ^ 15 - 1)))"
  "getValidator ''uint16'' = Inr (intValidator (Some 0) (Some (2 ^ 16 - 1)))"
  "getValidator ''int32'' = Inr (intValidator (Some (- (2 ^ 31))) (Some (2 ^ 31 - 1)))"
  "getValidator ''uint32'' = Inr (intValidator (Some 0) (Some (2 ^ 32 - 1)))"
  by (simp_all add: getValidator_def)

lemma intValidator_number:
  "type memberDef \<noteq> ''bigint'' \<Longrightarrow>
   intValidator min_v max_v memberDef (JNum v) =
     (if (min_v \<noteq> None \<and> v < the min_v) \<or> (max_v \<noteq> None \<and> the max_v < v)
      then Inl invalidRange else Inr ())"
  by (simp add: intValidator_def NUMBER_MAP_def NUMBER_TYPES_def)

lemma intValidator_numeric:
  "type memberDef \<noteq> ''bigint'' \<Longrightarrow> isNumber value \<Longrightarrow>
   intValidator min_v max_v memberDef value =
     (if (min_v \<noteq> None \<and> js_lt value (the min_v)) \<or> (max_v \<noteq> None \<and> js_gt value (the max_v))
      then Inl invalidRange else Inr ())"
  by (simp add: intValidator_def isNumber_def NUMBER_MAP_def NUMBER_TYPES_def)

lemma outside_range:
  "isNumber value \<Longrightarrow> value \<noteq> JNaN \<Longrightarrow>
   (js_lt value lo \<or> js_gt value hi) = (\<not> in_range value (lo, hi))"
  by (cases "value") (auto simp: isNumber_def)

lemma parse_with_bounds:
  assumes gv: "getValidator t = Inr (intValidator (Some (fst r)) (Some (snd r)))"
    and ty: "type memberDef \<noteq> ''bigint''"
    and num: "isNumber value" "value \<noteq> JNaN"
    and cc: "doCommonTypeCheck memberDef value = Inr value"
  shows "NumberDef_parse t value memberDef None =
     (if \<not> in_range value r then Inl invalidRange
      else if (min_md memberDef \<noteq> None \<and> js_lt value (the (min_md memberDef)))
            \<or> (max_md memberDef \<noteq> None \<and> js_gt value (the (max_md memberDef)))
      then Inl outOfRange
      else Inr value)"
proof -
  have o: "(js_lt value (fst r) \<or> js_gt value (snd r)) = (\<not> in_range value r)"
    using outside_range [OF num, of "fst r" "snd r"] by simp
  show ?thesis
    using o
    by (auto simp: NumberDef_parse_def NumberDef_def gv parse_number_def getV_or_def cc
        intValidator_numeric [OF ty num(1)])
qed

lemma plain_memberDef_common:
  "v \<noteq> JUndefined \<Longrightarrow> v \<noteq> JNull \<Longrightarrow> doCommonTypeCheck (plain_memberDef t) v = Inr v"
  by (simp add: doCommonTypeCheck_def plain_memberDef_def)

text \<open>
  C3. With \<^verbatim>\<open>minLength\<close> 2 and no other constraint, \<^verbatim>\<open>_process\<close> rejects the string
  \<^verbatim>\<open>abc\<close> of length 3 with \<^verbatim>\<open>invalid-min-length\<close> and accepts the string \<^verbatim>\<open>a\<close> of length
  1: the comparison of the source is \<^verbatim>\<open>value.length > minLength\<close>, the opposite of the
  claimed \<^verbatim>\<open>value.length < minLength\<close>.
\<close>

theorem minLength_check_is_reversed:
  "process_string test ((plain_memberDef ''string'')\<lparr>minLength := JNum 2\<rparr>)
     (JStr (str ''abc'')) None = Inl invalidMinLength
   \<and> process_string test ((plain_memberDef ''string'')\<lparr>minLength := JNum 2\<rparr>)
       (JStr (str ''a'')) None
     = Inr (JStr (str ''a''), (plain_memberDef ''string'')\<lparr>minLength := JNum 2\<rparr>)"
  by (simp add: process_string_def getV_or_def doCommonTypeCheck_def validatePattern_def
      isNumber_def str_def plain_memberDef_def)

theorem minLength_check_is_reversed_witness:
  "map_sum ErrorCodes fst
     (process_string (\<lambda>r s. True) ((plain_memberDef ''string'')\<lparr>minLength := JNum 2\<rparr>)
        (JStr (str ''abc'')) None) = Inl ''invalid-min-length''
   \<and> map_sum ErrorCodes fst
     (process_string (\<lambda>r s. True) ((plain_memberDef ''string'')\<lparr>minLength := JNum 2\<rparr>)
        (JStr (str ''a'')) None) = Inr (JStr (str ''a''))"
  using minLength_check_is_reversed [of "\<lambda>r s. True"] by simp

text \<open>
  C4. \<^verbatim>\<open>new NumberDef('float64').parse\<close> returns the number 5 for a member of type
  \<^verbatim>\<open>float64\<close> where the claim says it fails with \<^verbatim>\<open>unsupported-number-type\<close>. The
  \<^verbatim>\<open>switch\<close> of \<^verbatim>\<open>_getValidator\<close> has the label \<^verbatim>\<open>'float64'\<close> twice: the one in the first
  group wins, the one in the unsupported group, beside \<^verbatim>\<open>'float32'\<close>, is never reached.
\<close>

theorem float64_is_validated:
  "NumberDef_parse ''float64'' (JNum 5) (plain_memberDef ''float64'') None = Inr (JNum 5)"
  by (simp add: NumberDef_parse_def NumberDef_def getValidator_float64 parse_number_def
      getV_or_def doCommonTypeCheck_def intValidator_number plain_memberDef_def)

text \<open>
  The other three types of the unsupported group, \<^verbatim>\<open>int64\<close>, \<^verbatim>\<open>uint64\<close> and \<^verbatim>\<open>float32\<close>,
  never return a value: when the common type check fails, \<^verbatim>\<open>parse\<close> fails with its error
  (the check runs first), and whenever the check passes, \<^verbatim>\<open>parse\<close> fails with
  \<^verbatim>\<open>unsupported-number-type\<close>, whatever the value.
\<close>

lemma unsupported_number_types:
  assumes "t \<in> {''int64'', ''uint64'', ''float32''}"
  shows "NumberDef_parse t node memberDef defs =
     (case doCommonTypeCheck memberDef (getV_or defs node) of
        Inl e \<Rightarrow> Inl e
      | Inr value \<Rightarrow> Inl unsupportedNumberType)"
proof -
  from assms have "getValidator t = Inr (\<lambda>memberDef value. Inl unsupportedNumberType)"
    using getValidator_unsupported by auto
  then show ?thesis
    by (simp add: NumberDef_parse_def NumberDef_def parse_number_def split: sum.splits)
qed

lemma float32_is_unsupported:
  "NumberDef_parse ''float32'' (JNum 5) (plain_memberDef ''float32'') None
     = Inl unsupportedNumberType
   \<and> NumberDef_parse ''float32'' JNull (plain_memberDef ''float32'') None = Inl nullNotAllowed"
  by (simp add: unsupported_number_types getV_or_def doCommonTypeCheck_def plain_memberDef_def)

text \<open>
  \<^verbatim>\<open>NaN\<close> passes every bounded integer validator: its type is \<^verbatim>\<open>number\<close> and both
  comparisons of \<^verbatim>\<open>_intValidator\<close>, as those of \<^verbatim>\<open>parse\<close> with \<^verbatim>\<open>min\<close> and \<^verbatim>\<open>max\<close>, are
  false for it.
\<close>

lemma bounded_types_accept_NaN:
  assumes gv: "getValidator t = Inr (intValidator min_v max_v)"
    and ty: "type memberDef \<noteq> ''bigint''"
    and cc: "doCommonTypeCheck memberDef JNaN = Inr JNaN"
  shows "NumberDef_parse t JNaN memberDef None = Inr JNaN"
  by (simp add: NumberDef_parse_def NumberDef_def gv parse_number_def getV_or_def cc
      intValidator_numeric [OF ty] isNumber_def)

text \<open>
  C8, as stated, fails twice. The fixed-width type \<^verbatim>\<open>uint64\<close> accepts no value, not even
  0 of its range \<open>[0, 2^64-1]\<close>: its validator throws \<^verbatim>\<open>unsupported-number-type\<close>. And
  \<^verbatim>\<open>int8\<close> accepts \<^verbatim>\<open>NaN\<close>, which is not in \<open>[-128, 127]\<close>.
\<close>

theorem uint64_rejects_zero_and_int8_accepts_NaN:
  "NumberDef_parse ''uint64'' (JNum 0) (plain_memberDef ''uint64'') None
     = Inl unsupportedNumberType
   \<and> NumberDef_parse ''int8'' JNaN (plain_memberDef ''int8'') None = Inr JNaN
   \<and> in_range (JNum 0) (twos_complement_range False 64)
   \<and> \<not> in_range JNaN (twos_complement_range True 8)"
proof -
  have "NumberDef_parse ''uint64'' (JNum 0) (plain_memberDef ''uint64'') None
      = Inl unsupportedNumberType"
    by (simp add: NumberDef_parse_def NumberDef_def getValidator_unsupported parse_number_def
        getV_or_def plain_memberDef_common)
  moreover have "NumberDef_parse ''int8'' JNaN (plain_memberDef ''int8'') None = Inr JNaN"
    by (rule bounded_types_accept_NaN [OF getValidator_fixed_width(1)])
      (simp_all add: plain_memberDef_def doCommonTypeCheck_def)
  ultimately show ?thesis
    by (simp add: twos_complement_range_def)
qed

text \<open>
  C8, amended. For a fixed-width integer type of 8, 16 or 32 bits, signed or unsigned, and
  a number other than \<^verbatim>\<open>NaN\<close> that passes the common type check, \<^verbatim>\<open>NumberDef.parse\<close> fails
  with \<^verbatim>\<open>invalid-range\<close> exactly when the number is outside the two's-complement range of
  the type (\<open>[-2^(n-1), 2^(n-1)-1]\<close> signed, \<open>[0, 2^n-1]\<close> unsigned); inside it, it fails
  with \<^verbatim>\<open>out-of-range\<close> when the number violates \<^verbatim>\<open>min\<close> or \<^verbatim>\<open>max\<close> of the member
  definition, and returns the number otherwise. So a value at a bound parses and a value
  one past it fails. For the types of 64 bits, \<^verbatim>\<open>int64\<close> and \<^verbatim>\<open>uint64\<close>, every such number
  fails with \<^verbatim>\<open>unsupported-number-type\<close>.
\<close>

theorem fixed_width_integer_range:
  assumes n: "n \<in> {8, 16, 32, 64}"
    and ty: "type memberDef = fixed_width_type is_signed n"
    and num: "isNumber value" "value \<noteq> JNaN"
    and cc: "doCommonTypeCheck memberDef value = Inr value"
  shows "NumberDef_parse (fixed_width_type is_signed n) value memberDef None =
     (if n = 64 then Inl unsupportedNumberType
      else if \<not> in_range value (twos_complement_range is_signed n) then Inl invalidRange
      else if (min_md memberDef \<noteq> None \<and> js_lt value (the (min_md memberDef)))
            \<or> (max_md memberDef \<noteq> None \<and> js_gt value (the (max_md memberDef)))
      then Inl outOfRange
      else Inr value)"
proof (cases "n = 64")
  case True
  then have "getValidator (fixed_width_type is_signed n)
      = Inr (\<lambda>memberDef value. Inl unsupportedNumberType)"
    using getValidator_unsupported by (simp add: fixed_width_type_def)
  then show ?thesis
    using True by (simp add: NumberDef_parse_def NumberDef_def parse_number_def getV_or_def cc)
next
  case False
  with n have n': "n \<in> {8, 16, 32}" by simp
  have nb: "type memberDef \<noteq> ''bigint''"
    using n' ty by (auto simp: fixed_width_type_def)
  have gv: "getValidator (fixed_width_type is_signed n) =
      Inr (intValidator (Some (fst (twos_complement_range is_signed n)))
                        (Some (snd (twos_complement_range is_signed n))))"
    using n' getValidator_fixed_width
    by (auto simp: fixed_width_type_def twos_complement_range_def)
  have "NumberDef_parse (fixed_width_type is_signed n) value memberDef None =
     (if \<not> in_range value (twos_complement_range is_signed n) then Inl invalidRange
      else if (min_md memberDef \<noteq> None \<and> js_lt value (the (min_md memberDef)))
            \<or> (max_md memberDef \<noteq> None \<and> js_gt value (the (max_md memberDef)))
      then Inl outOfRange
      else Inr value)"
    by (rule parse_with_bounds [OF gv nb num cc])
  with False show ?thesis by simp
qed

theorem fixed_width_integer_range_witness:
  "NumberDef_parse ''int8'' (JNum (- 128)) (plain_memberDef ''int8'') None = Inr (JNum (- 128))
   \<and> NumberDef_parse ''int8'' (JNum 127) (plain_memberDef ''int8'') None = Inr (JNum 127)
   \<and> NumberDef_parse ''int8'' (JNum (- 129)) (plain_memberDef ''int8'') None = Inl invalidRange
   \<and> NumberDef_parse ''int8'' (JNum 128) (plain_memberDef ''int8'') None = Inl invalidRange
   \<and> NumberDef_parse ''int8'' JInfinity (plain_memberDef ''int8'') None = Inl invalidRange
   \<and> NumberDef_parse ''uint8'' (JNum 0) (plain_memberDef ''uint8'') None = Inr (JNum 0)
   \<and> NumberDef_parse ''uint8'' (JNum 255) (plain_memberDef ''uint8'') None = Inr (JNum 255)
   \<and> NumberDef_parse ''uint8'' (JNum 256) (plain_memberDef ''uint8'') None = Inl invalidRange
   \<and> NumberDef_parse ''uint8'' (JNum 200) ((plain_memberDef ''uint8'')\<lparr>max_md := Some 100\<rparr>) None
       = Inl outOfRange
   \<and> NumberDef_parse ''int64'' (JNum 5) (plain_memberDef ''int64'') None
       = Inl unsupportedNumberType"
proof -
  have n: "(8::nat) \<in> {8, 16, 32, 64}" and n64: "(64::nat) \<in> {8, 16, 32, 64}" by simp_all
  have s: "type (plain_memberDef ''int8'') = fixed_width_type True 8"
    and u: "type (plain_memberDef ''uint8'') = fixed_width_type False 8"
    and m: "type ((plain_memberDef ''uint8'')\<lparr>max_md := Some 100\<rparr>) = fixed_width_type False 8"
    and l: "type (plain_memberDef ''int64'') = fixed_width_type True 64"
    by (simp_all add: plain_memberDef_def fixed_width_type_def)
  have k: "isNumber (JNum v)" "JNum v \<noteq> JNaN" "isNumber JInfinity" "JInfinity \<noteq> JNaN" for v
    by (simp_all add: isNumber_def)
  have cs: "doCommonTypeCheck (plain_memberDef ''int8'') (JNum v) = Inr (JNum v)"
    and ci: "doCommonTypeCheck (plain_memberDef ''int8'') JInfinity = Inr JInfinity"
    and cu: "doCommonTypeCheck (plain_memberDef ''uint8'') (JNum v) = Inr (JNum v)"
    and cm: "doCommonTypeCheck ((plain_memberDef ''uint8'')\<lparr>max_md := Some 100\<rparr>) (JNum v)
              = Inr (JNum v)"
    and cl: "doCommonTypeCheck (plain_memberDef ''int64'') (JNum v) = Inr (JNum v)" for v
    by (simp_all add: doCommonTypeCheck_def plain_memberDef_def)
  show ?thesis
    using fixed_width_integer_range [OF n s k(1,2) cs, of "- 128"]
      fixed_width_integer_range [OF n s k(1,2) cs, of 127]
      fixed_width_integer_range [OF n s k(1,2) cs, of "- 129"]
      fixed_width_integer_range [OF n s k(1,2) cs, of 128]
      fixed_width_integer_range [OF n s k(3,4) ci]
      fixed_width_integer_range [OF n u k(1,2) cu, of 0]
      fixed_width_integer_range [OF n u k(1,2) cu, of 255]
      fixed_width_integer_range [OF n u k(1,2) cu, of 256]
      fixed_width_integer_range [OF n m k(1,2) cm, of 200]
      fixed_width_integer_range [OF n64 l k(1,2) cl, of 5]
    by (simp add: fixed_width_type_def twos_complement_range_def plain_memberDef_def)
qed

section \<open>Properties of the AST parser\<close>

lemmas ast_defs = process_def sep_def string_token_def str_def new_ASTParser_def getObject_def
  push_def addValue_def pop_def lastVal_of_def

lemma getObject_nonempty:
  "stack this \<noteq> [] \<Longrightarrow> getObject this = (last (stack this), this)"
  by (simp add: getObject_def)

lemma getObject_stack:
  "getObject this = (obj, this1) \<Longrightarrow>
   stack this1 \<noteq> [] \<and> length (stack this1) = max 1 (length (stack this))
   \<and> obj = last (stack this1)"
  by (cases "stack this") (auto simp: getObject_def)

lemma addValue_stack:
  "stack this \<noteq> [] \<Longrightarrow> stack (addValue v this) = stack this"
  by (simp add: addValue_def getObject_nonempty split: option.splits node.splits)

lemma push_stack:
  "stack this \<noteq> [] \<Longrightarrow> stack (push t this) = stack this @ [length (heap this)]"
  by (simp add: push_def getObject_nonempty addValue_stack Let_def)

lemma process_close:
  assumes "is_close token"
  shows "process ts token this =
     (if tree_type (top_container this) \<noteq> closes token then
        Inl (token, snd (projl (pop (closes token) token this)))
      else Inr ((snd (getObject this))\<lparr>stack := butlast (stack (snd (getObject this))),
                                         lastToken := Some token\<rparr>))"
proof -
  obtain obj this1 where g: "getObject this = (obj, this1)"
    by (cases "getObject this")
  then have ne: "stack this1 \<noteq> []"
    using getObject_stack by blast
  have g1: "getObject this1 = (obj, this1)"
    using g ne getObject_stack [OF g] by (simp add: getObject_nonempty)
  have v: "tok_value token \<noteq> JStr (str ''{'')" "tok_value token \<noteq> JStr (str ''['')"
    "tok_type token = ''sep''"
    "tok_value token = JStr (str ''}'') \<or> tok_value token = JStr (str '']'')"
    using assms by (auto simp: is_close_def is_open_def)
  have v2: "tok_value token \<noteq> JStr (str '':'')" "tok_value token \<noteq> JStr (str '','')"
    using v(4) by (auto simp: str_def)
  have "process ts token this =
      (case pop (closes token) token this1 of
         Inl e \<Rightarrow> Inl e
       | Inr this' \<Rightarrow> Inr (this'\<lparr>lastToken := Some token\<rparr>))"
    using v(4) by (simp add: process_def g v(1,2,3) v2 closes_def)
  also have "\<dots> = (if tree_type (top_container this) \<noteq> closes token then
        Inl (token, snd (projl (pop (closes token) token this)))
      else Inr (this1\<lparr>stack := butlast (stack this1), lastToken := Some token\<rparr>))"
    by (simp add: pop_def g g1 top_container_def)
  finally show ?thesis by (simp add: g)
qed

lemma process_depth:
  assumes "process ts token this = Inr this'"
  shows "length (stack this') =
     (if is_open token then Suc (max 1 (length (stack this)))
      else if is_close token then max 1 (length (stack this)) - 1
      else max 1 (length (stack this)))"
proof -
  obtain obj this1 where g: "getObject this = (obj, this1)"
    by (cases "getObject this")
  then have ne: "stack this1 \<noteq> []" and len: "length (stack this1) = max 1 (length (stack this))"
    using getObject_stack by blast+
  show ?thesis
  proof (cases "is_open token")
    case True
    then show ?thesis
      using assms by (auto simp: process_def g is_open_def push_stack [OF ne] len str_def)
  next
    case no: False
    show ?thesis
    proof (cases "is_close token")
      case True
      with assms show ?thesis
        by (auto simp: process_close g len no split: if_splits)
    next
      case False
      with no assms show ?thesis
        by (auto simp: process_def g is_open_def is_close_def addValue_stack [OF ne] len
            Let_def split: if_splits)
    qed
  qed
qed

lemma process_all_depth:
  assumes "process_all ts tokens this = Inr this'" and "tokens \<noteq> []"
    and "nesting (length (stack this) - 1) tokens = Some k"
  shows "length (stack this') = Suc k"
  using assms
proof (induction tokens arbitrary: this)
  case Nil
  then show ?case by simp
next
  case (Cons token tokens)
  from Cons.prems(1) obtain this1 where
    p: "process ts token this = Inr this1" and r: "process_all ts tokens this1 = Inr this'"
    by (auto split: sum.splits)
  define n where "n = length (stack this) - 1"
  have m: "max 1 (length (stack this)) = Suc n"
    unfolding n_def by arith
  have d: "length (stack this1) =
      (if is_open token then Suc (Suc n) else if is_close token then n else Suc n)"
    using process_depth [OF p, unfolded m] by simp
  have nest: "nesting n (token # tokens) = Some k"
    using Cons.prems(3) by (simp add: n_def)
  show ?case
  proof (cases "tokens = []")
    case True
    with r have "this' = this1" by simp
    with d nest True show ?thesis
      by (auto split: if_splits)
  next
    case False
    have "nesting (length (stack this1) - 1) tokens = Some k"
      using d nest by (auto split: if_splits)
    from Cons.IH [OF r False this] show ?thesis .
  qed
qed

lemma process_open_bracket:
  "process ts (sep ''['') new_ASTParser =
     Inr \<lparr>heap = [\<lparr>tree_type = ''object'', tree_values = [Tree 1]\<rparr>,
                  \<lparr>tree_type = ''array'', tree_values = []\<rparr>],
          stack = [0, 1],
          lastToken = Some (sep ''['')\<rparr>"
  by (simp add: ast_defs)

text \<open>
  C2. The tokens \<^verbatim>\<open>[\<close>, \<^verbatim>\<open>]\<close>, \<^verbatim>\<open>:\<close> in this order: when \<^verbatim>\<open>:\<close> arrives, the last child of
  the root is the array, which is not a primitive. \<^verbatim>\<open>process\<close> raises no error and leaves
  the children as they are; only \<^verbatim>\<open>lastToken\<close> changes. The \<^verbatim>\<open>else\<close> branch of the source
  is empty but for the comment \<^verbatim>\<open>Throw Invalid key error!\<close>.
\<close>

theorem colon_after_container_raises_nothing:
  "process_all num_toString_example [sep ''['', sep '']'', sep '':''] new_ASTParser =
     Inr \<lparr>heap = [\<lparr>tree_type = ''object'', tree_values = [Tree 1]\<rparr>,
                  \<lparr>tree_type = ''array'', tree_values = []\<rparr>],
          stack = [0],
          lastToken = Some (sep '':'')\<rparr>"
  by (simp add: ast_defs)

theorem colon_after_container_raises_nothing_witness:
  "isl (process_all num_toString_example [sep ''['', sep '']'', sep '':''] new_ASTParser) = False"
  using colon_after_container_raises_nothing by simp

text \<open>
  C6, as stated, fails: after the single token \<^verbatim>\<open>{\<close>, processed without error, the stack
  holds the root and the object just opened, so its depth is 2. Nothing in the parser
  looks at the depth when the document ends.
\<close>

theorem unclosed_brace_leaves_depth_two:
  "stack_depth (process_all num_toString_example [sep ''{''] new_ASTParser) = Some 2"
  by (simp add: ast_defs stack_depth_def)

text \<open>
  C6, amended. A closing token that meets a container of the other type fails with the
  error that carries the token; one that meets a container of its own type (\<^verbatim>\<open>}\<close> an
  object, \<^verbatim>\<open>]\<close> an array) pops it and nothing else of the stack. Each opening token adds
  one level and each closing token removes one: after a non-empty token sequence
  processed without error, in which every closing token has a container opened before
  it to close and \<open>k\<close> opened containers are left unclosed, the depth of the stack is
  \<open>k + 1\<close>, which is 1 exactly when every opened container has been closed.
\<close>

theorem bracket_matching_and_depth:
  "(is_close token \<and> tree_type (top_container this) \<noteq> closes token
      \<longrightarrow> (\<exists>message. process ts token this = Inl (token, message)))
   \<and> (is_close token \<and> tree_type (top_container this) = closes token
      \<longrightarrow> process ts token this =
            Inr ((snd (getObject this))\<lparr>stack := butlast (stack (snd (getObject this))),
                                        lastToken := Some token\<rparr>))
   \<and> (tokens \<noteq> [] \<and> process_all ts tokens new_ASTParser = Inr this'
        \<and> nesting 0 tokens = Some k
      \<longrightarrow> length (stack this') = Suc k)"
proof (intro conjI impI)
  assume "is_close token \<and> tree_type (top_container this) \<noteq> closes token"
  then show "\<exists>message. process ts token this = Inl (token, message)"
    by (simp add: process_close)
next
  assume "is_close token \<and> tree_type (top_container this) = closes token"
  then show "process ts token this =
      Inr ((snd (getObject this))\<lparr>stack := butlast (stack (snd (getObject this))),
                                  lastToken := Some token\<rparr>)"
    by (simp add: process_close)
next
  assume a: "tokens \<noteq> [] \<and> process_all ts tokens new_ASTParser = Inr this'
    \<and> nesting 0 tokens = Some k"
  then have "nesting (length (stack new_ASTParser) - 1) tokens = Some k"
    by (simp add: new_ASTParser_def)
  with a show "length (stack this') = Suc k"
    using process_all_depth by blast
qed

text \<open>
  The witness: after \<^verbatim>\<open>[\<close>, the token \<^verbatim>\<open>}\<close> fails and the token \<^verbatim>\<open>]\<close> pops the array; the
  tokens \<^verbatim>\<open>{\<close>, \<^verbatim>\<open>a\<close>, \<^verbatim>\<open>}\<close> end at depth 1 and the tokens \<^verbatim>\<open>{\<close>, \<^verbatim>\<open>[\<close>, \<^verbatim>\<open>]\<close> at depth 2.
\<close>

theorem bracket_matching_and_depth_witness:
  "(\<exists>message.
      process num_toString_example (sep ''}'')
        \<lparr>heap = [\<lparr>tree_type = ''object'', tree_values = [Tree 1]\<rparr>,
                 \<lparr>tree_type = ''array'', tree_values = []\<rparr>],
         stack = [0, 1], lastToken = Some (sep ''['')\<rparr>
      = Inl (sep ''}'', message))
   \<and> process num_toString_example (sep '']'')
        \<lparr>heap = [\<lparr>tree_type = ''object'', tree_values = [Tree 1]\<rparr>,
                 \<lparr>tree_type = ''array'', tree_values = []\<rparr>],
         stack = [0, 1], lastToken = Some (sep ''['')\<rparr>
      = Inr \<lparr>heap = [\<lparr>tree_type = ''object'', tree_values = [Tree 1]\<rparr>,
                     \<lparr>tree_type = ''array'', tree_values = []\<rparr>],
             stack = [0], lastToken = Some (sep '']'')\<rparr>
   \<and> stack_depth (process_all num_toString_example
                     [sep ''{'', string_token ''a'', sep ''}''] new_ASTParser) = Some 1
   \<and> stack_depth (process_all num_toString_example
                     [sep ''{'', sep ''['', sep '']''] new_ASTParser) = Some 2"
proof -
  let ?S = "\<lparr>heap = [\<lparr>tree_type = ''object'', tree_values = [Tree 1]\<rparr>,
                     \<lparr>tree_type = ''array'', tree_values = []\<rparr>],
             stack = [0, 1], lastToken = Some (sep ''['')\<rparr>"
  let ?A = "[sep ''{'', string_token ''a'', sep ''}'']"
  let ?B = "[sep ''{'', sep ''['', sep '']'']"
  have c1: "is_close (sep ''}'')" and c2: "is_close (sep '']'')"
    by (simp_all add: is_close_def is_open_def sep_def str_def)
  have t: "tree_type (top_container ?S) = ''array''"
    by (simp add: top_container_def getObject_def)
  have k1: "closes (sep ''}'') = ''object''" and k2: "closes (sep '']'') = ''array''"
    by (simp_all add: closes_def sep_def str_def)
  obtain a where a: "process_all num_toString_example ?A new_ASTParser = Inr a"
    by (simp add: ast_defs)
  obtain b where b: "process_all num_toString_example ?B new_ASTParser = Inr b"
    by (simp add: ast_defs)
  have na: "nesting 0 ?A = Some 0" and nb: "nesting 0 ?B = Some 1"
    by (simp_all add: is_close_def is_open_def sep_def string_token_def str_def)
  note mismatch =
    bracket_matching_and_depth [of "sep ''}''" ?S num_toString_example,
      THEN conjunct1, unfolded t k1]
  note match =
    bracket_matching_and_depth [of "sep '']''" ?S num_toString_example,
      THEN conjunct2, THEN conjunct1, unfolded t k2]
  note depth_a =
    bracket_matching_and_depth [of "sep ''}''" ?S num_toString_example ?A a 0,
      THEN conjunct2, THEN conjunct2]
  note depth_b =
    bracket_matching_and_depth [of "sep ''}''" ?S num_toString_example ?B b 1,
      THEN conjunct2, THEN conjunct2]
  have 1: "\<exists>message. process num_toString_example (sep ''}'') ?S = Inl (sep ''}'', message)"
    using mismatch c1 by simp
  have 2: "process num_toString_example (sep '']'') ?S =
      Inr ((snd (getObject ?S))\<lparr>stack := butlast (stack (snd (getObject ?S))),
                                lastToken := Some (sep '']'')\<rparr>)"
    using match c2 by simp
  have 3: "length (stack a) = Suc 0"
    using depth_a a na by simp
  have 4: "length (stack b) = Suc 1"
    using depth_b b nb by simp
  have r2: "process num_toString_example (sep '']'') ?S =
      Inr \<lparr>heap = [\<lparr>tree_type = ''object'', tree_values = [Tree 1]\<rparr>,
                   \<lparr>tree_type = ''array'', tree_values = []\<rparr>],
           stack = [0], lastToken = Some (sep '']'')\<rparr>"
    using 2 by (simp add: getObject_def)
  have r3: "stack_depth (process_all num_toString_example ?A new_ASTParser) = Some 1"
    unfolding a stack_depth_def using 3 by simp
  have r4: "stack_depth (process_all num_toString_example ?B new_ASTParser) = Some 2"
    unfolding b stack_depth_def using 4 by simp
  from 1 r2 r3 r4 show ?thesis
    by (intro conjI)
qed

text \<open>
  C10. \<^verbatim>\<open>toObject\<close> returns \<^verbatim>\<open>null\<close> on a parser that has processed nothing, and on any
  parser whose stack is empty; \<^verbatim>\<open>undefined\<close> when the root (the bottom of the stack) has no
  child; and the child as it is when the root has exactly one child.
\<close>

theorem toObject_edge_cases:
  "toObject new_ASTParser = Some Returns_null
   \<and> (stack this = [] \<longrightarrow> toObject this = Some Returns_null)
   \<and> (stack this \<noteq> [] \<and> tree_values (heap this ! hd (stack this)) = []
        \<longrightarrow> toObject this = Some Returns_undefined)
   \<and> (stack this \<noteq> [] \<and> tree_values (heap this ! hd (stack this)) = [child]
        \<longrightarrow> toObject this = Some (Returns_child child))"
  by (auto simp: toObject_def new_ASTParser_def hd_conv_nth)

text \<open>
  The witness: after the token \<^verbatim>\<open>,\<close> alone the root exists and has no child; after the
  token \<^verbatim>\<open>[\<close> the only child of the root is the array itself; after a surplus \<^verbatim>\<open>}\<close> that
  popped the root, the stack is empty.
\<close>

theorem toObject_edge_cases_witness:
  "process_all num_toString_example [sep '',''] new_ASTParser
     = Inr \<lparr>heap = [\<lparr>tree_type = ''object'', tree_values = []\<rparr>],
            stack = [0], lastToken = Some (sep '','')\<rparr>
   \<and> toObject \<lparr>heap = [\<lparr>tree_type = ''object'', tree_values = []\<rparr>],
               stack = [0], lastToken = Some (sep '','')\<rparr> = Some Returns_undefined
   \<and> process_all num_toString_example [sep ''[''] new_ASTParser
     = Inr \<lparr>heap = [\<lparr>tree_type = ''object'', tree_values = [Tree 1]\<rparr>,
                    \<lparr>tree_type = ''array'', tree_values = []\<rparr>],
            stack = [0, 1], lastToken = Some (sep ''['')\<rparr>
   \<and> toObject \<lparr>heap = [\<lparr>tree_type = ''object'', tree_values = [Tree 1]\<rparr>,
                       \<lparr>tree_type = ''array'', tree_values = []\<rparr>],
               stack = [0, 1], lastToken = Some (sep ''['')\<rparr> = Some (Returns_child (Tree 1))
   \<and> process_all num_toString_example [sep ''}''] new_ASTParser
     = Inr \<lparr>heap = [\<lparr>tree_type = ''object'', tree_values = []\<rparr>],
            stack = [], lastToken = Some (sep ''}'')\<rparr>
   \<and> toObject \<lparr>heap = [\<lparr>tree_type = ''object'', tree_values = []\<rparr>],
               stack = [], lastToken = Some (sep ''}'')\<rparr> = Some Returns_null"
proof -
  let ?U = "\<lparr>heap = [\<lparr>tree_type = ''object'', tree_values = []\<rparr>],
             stack = [0], lastToken = Some (sep '','')\<rparr>"
  let ?C = "\<lparr>heap = [\<lparr>tree_type = ''object'', tree_values = [Tree 1]\<rparr>,
                     \<lparr>tree_type = ''array'', tree_values = []\<rparr>],
             stack = [0, 1], lastToken = Some (sep ''['')\<rparr>"
  let ?N = "\<lparr>heap = [\<lparr>tree_type = ''object'', tree_values = []\<rparr>],
             stack = [], lastToken = Some (sep ''}'')\<rparr>"
  have u: "toObject ?U = Some Returns_undefined"
    using toObject_edge_cases [of ?U] by simp
  have c: "toObject ?C = Some (Returns_child (Tree 1))"
    using toObject_edge_cases [of ?C "Tree 1"] by simp
  have n: "toObject ?N = Some Returns_null"
    using toObject_edge_cases [of ?N] by simp
  have p: "process_all num_toString_example [sep '',''] new_ASTParser = Inr ?U"
    "process_all num_toString_example [sep ''[''] new_ASTParser = Inr ?C"
    "process_all num_toString_example [sep ''}''] new_ASTParser = Inr ?N"
    by (simp_all add: ast_defs)
  show ?thesis
    using u c n p by simp
qed

section \<open>Properties of the tokenizer\<close>

subsection \<open>\<^verbatim>\<open>advance\<close> on a consistent state\<close>

lemma advance_zero [simp]: "advance input 0 this = this"
  by (simp add: advance_def)

lemma advance_loop_compose:
  "\<not> reachedEnd this \<Longrightarrow>
   advance input m (advance_loop input n this) = advance_loop input (n + m) this"
proof (induction n arbitrary: this)
  case 0
  then show ?case by (simp add: advance_def)
next
  case (Suc n)
  have r: "\<not> reachedEnd (advance_char input this)" using Suc.prems by simp
  show ?case
    using Suc.IH [OF r] by (auto simp: Let_def advance_def split: if_splits)
qed

lemma advance_compose:
  "advance input m (advance input n this) = advance input (n + m) this"
proof (cases "reachedEnd this")
  case True
  then show ?thesis by (simp add: advance_def)
next
  case False
  then show ?thesis
    using advance_loop_compose [OF False, of input m n] by (simp add: advance_def)
qed

lemma advance_loop_pos:
  "\<not> reachedEnd this \<Longrightarrow> pos this < length input \<Longrightarrow>
   pos (advance_loop input n this) = min (pos this + n) (length input)
   \<and> reachedEnd (advance_loop input n this) = (length input \<le> pos this + n)"
proof (induction n arbitrary: this)
  case 0
  then show ?case by simp
next
  case (Suc n)
  have r: "\<not> reachedEnd (advance_char input this)" using Suc.prems by simp
  show ?case
  proof (cases "length input \<le> pos this + 1")
    case True
    then show ?thesis using Suc.prems by (auto simp: Let_def)
  next
    case False
    then have "pos (advance_char input this) < length input" by auto
    from Suc.IH [OF r this] False show ?thesis
      by (auto simp: Let_def)
  qed
qed

lemma advance_pos:
  assumes "consistent input this"
  shows "pos (advance input n this) = (if reachedEnd this then pos this else min (pos this + n) (length input))"
    and "consistent input (advance input n this)"
  using assms advance_loop_pos [of this input n]
  by (auto simp: advance_def consistent_def)

lemma new_Tokenizer_consistent:
  "input \<noteq> [] \<Longrightarrow> consistent input new_Tokenizer"
  by (simp add: consistent_def new_Tokenizer_def)

lemma consistent_charAt:
  "consistent input this \<Longrightarrow> \<not> reachedEnd this \<Longrightarrow>
   drop (pos this) input = input ! pos this # drop (Suc (pos this)) input
   \<and> charAt input (pos this) = Some (input ! pos this)"
  by (simp add: consistent_def charAt_def Cons_nth_drop_Suc)

lemma consistent_drop:
  assumes "consistent input this" "drop (pos this) input = c # cs"
  shows "\<not> reachedEnd this" "charAt input (pos this) = Some c"
    "pos (advance input 1 this) = Suc (pos this)"
    "drop (pos (advance input 1 this)) input = cs"
    "consistent input (advance input 1 this)"
proof -
  from assms(2) have lt: "pos this < length input"
    by (metis drop_eq_Nil2 list.distinct(1) not_le)
  with assms(1) show r: "\<not> reachedEnd this" by (simp add: consistent_def)
  from assms(2) lt show "charAt input (pos this) = Some c"
    by (metis charAt_def hd_drop_conv_nth list.sel(1))
  from advance_pos(1) [OF assms(1), of 1] r lt
  show p: "pos (advance input 1 this) = Suc (pos this)" by simp
  from assms(2) show "drop (pos (advance input 1 this)) input = cs"
    unfolding p by (metis drop_Suc tl_drop list.sel(3))
  show "consistent input (advance input 1 this)"
    by (rule advance_pos(2) [OF assms(1)])
qed

lemma substring_take_drop:
  "substring s a (a + n) = take n (drop a s)"
  by (auto simp: substring_def Let_def min_def max_def)

subsection \<open>Regular strings\<close>

lemma spec_decode_rest:
  "spec_decode q xs = Inr (v, n, rest) \<Longrightarrow> length rest \<le> length xs"
proof (induction q xs arbitrary: v n rest rule: spec_decode.induct)
  case (1 q)
  then show ?case by simp
next
  case (2 q c cs)
  show ?case
  proof (cases "c = q")
    case True
    with "2.prems" show ?thesis by simp
  next
    case nq: False
    show ?thesis
    proof (cases "c = BACKSLASH")
      case False
      with nq "2.prems" "2.IH"(1) show ?thesis
        by (auto simp: decoded_def split: sum.splits)
    next
      case True
      with nq "2.prems" obtain e es where cs: "cs = e # es"
        by (cases cs) auto
      show ?thesis
        using nq True cs "2.prems" "2.IH"(2) [OF nq _ cs] "2.IH"(3) [OF nq _ cs]
          "2.IH"(4) [OF nq _ cs]
        by (auto simp: decoded_def split: sum.splits if_splits)
    qed
  qed
qed


lemma advance_more:
  assumes "consistent input this" "drop (pos this) input = xs" "k \<le> length xs"
  shows "consistent input (advance input k this)"
    and "pos (advance input k this) = pos this + k"
    and "drop (pos (advance input k this)) input = drop k xs"
    and "advance input j (advance input k this) = advance input (k + j) this"
proof -
  show "consistent input (advance input k this)"
    by (rule advance_pos(2) [OF assms(1)])
  have "pos this + k \<le> length input \<or> k = 0"
    using assms(2,3) by (cases "pos this \<le> length input") auto
  then show p: "pos (advance input k this) = pos this + k"
    using advance_pos(1) [OF assms(1), of k] assms(1)
    by (auto simp: consistent_def)
  show "drop (pos (advance input k this)) input = drop k xs"
    unfolding p using assms(2) by (metis add.commute drop_drop)
  show "advance input j (advance input k this) = advance input (k + j) this"
    by (rule advance_compose)
qed

lemma regular_string_loop_end:
  "reachedEnd this \<or> charAt input (pos this) = Some q \<Longrightarrow>
   regular_string_loop input q this value flag = Inr (this, value, flag)"
  by (subst regular_string_loop.simps) auto

lemma regular_string_loop_plain:
  "\<not> reachedEnd this \<Longrightarrow> charAt input (pos this) = Some c \<Longrightarrow> c \<noteq> q \<Longrightarrow> c \<noteq> BACKSLASH \<Longrightarrow>
   regular_string_loop input q this value flag =
     regular_string_loop input q (advance input 1 this) (value @ [c]) flag"
  by (subst regular_string_loop.simps) (simp add: js_append_def)

lemma regular_string_loop_escape:
  assumes "\<not> reachedEnd this" "charAt input (pos this) = Some BACKSLASH" "BACKSLASH \<noteq> q"
  shows "regular_string_loop input q this value flag =
     (let this1 = advance input 1 this
      in if reachedEnd this1 then Inl UnprocessedEscape
         else (case charAt input (pos this1) of
                 None \<Rightarrow> regular_string_loop input q (advance input 1 this1)
                           (value @ str ''undefined'') flag
               | Some e \<Rightarrow>
                   if [e] = str ''u'' then
                     (let hex = substring input (pos this1 + 1) (pos this1 + 5)
                      in if regexHex4 hex then
                           regular_string_loop input q (advance input 1 (advance input 4 this1))
                             (value @ [fromCharCode_hex hex]) True
                         else Inl (InvalidUnicodeEscape hex))
                   else if [e] = str ''x'' then
                     (let hexByte = substring input (pos this1 + 1) (pos this1 + 3)
                      in if regexHex2 hexByte then
                           regular_string_loop input q (advance input 1 (advance input 2 this1))
                             (value @ [fromCharCode_hex hexByte]) True
                         else Inl (InvalidHexEscape hexByte))
                   else regular_string_loop input q (advance input 1 this1)
                          (value @ [simple_escape e]) flag))"
  using assms
  by (subst regular_string_loop.simps)
     (auto simp: js_append_def Let_def simple_escape_def str_def split: option.splits)

lemma regular_string_loop_continue:
  assumes cons: "consistent input this" and dr: "drop (pos this) input = xs"
    and k: "k \<le> length xs"
    and ih: "\<And>this' value' flag'.
      consistent input this' \<Longrightarrow> drop (pos this') input = drop k xs \<Longrightarrow>
      regular_string_loop input q this' value' flag' =
        (case spec_decode q (drop k xs) of
           Inl e \<Rightarrow> Inl e
         | Inr (v, numeric, rest) \<Rightarrow>
             Inr (advance input (length (drop k xs) - length rest) this', value' @ v,
                  flag' \<or> numeric))"
  shows "regular_string_loop input q (advance input k this) (value @ [c]) flag =
     (case decoded c False (spec_decode q (drop k xs)) of
        Inl e \<Rightarrow> Inl e
      | Inr (v, numeric, rest) \<Rightarrow>
          Inr (advance input (length xs - length rest) this, value @ v, flag \<or> numeric))"
proof -
  note adv = advance_more [OF cons dr k]
  show ?thesis
  proof (cases "spec_decode q (drop k xs)")
    case (Inl e)
    then show ?thesis
      using ih [OF adv(1) adv(3)] by (simp add: decoded_def)
  next
    case (Inr r)
    obtain v n rest where r: "r = (v, n, rest)" by (cases r)
    have "length rest \<le> length (drop k xs)"
      using spec_decode_rest Inr r by blast
    then have "k + (length (drop k xs) - length rest) = length xs - length rest"
      using k by simp
    then show ?thesis
      using ih [OF adv(1) adv(3)] Inr r by (simp add: decoded_def advance_compose)
  qed
qed

lemma regular_string_loop_refines:
  "consistent input this \<Longrightarrow> drop (pos this) input = xs \<Longrightarrow>
   regular_string_loop input q this value flag =
     (case spec_decode q xs of
        Inl e \<Rightarrow> Inl e
      | Inr (v, numeric, rest) \<Rightarrow>
          Inr (advance input (length xs - length rest) this, value @ v, flag \<or> numeric))"
proof (induction q xs arbitrary: this "value" flag rule: spec_decode.induct)
  case (1 q)
  then have "reachedEnd this"
    by (simp add: consistent_def)
  then show ?case
    by (simp add: regular_string_loop_end)
next
  case (2 q c cs)
  note cons = "2.prems"(1) and dr = "2.prems"(2)
  note here = consistent_drop [OF cons dr]
  note continue = regular_string_loop_continue [OF cons dr]
  show ?case
  proof (cases "c = q")
    case True
    then show ?thesis
      using here by (simp add: regular_string_loop_end)
  next
    case nq: False
    show ?thesis
    proof (cases "c = BACKSLASH")
      case False
      have "regular_string_loop input q (advance input 1 this) (value @ [c]) flag =
          (case decoded c False (spec_decode q (drop 1 (c # cs))) of
             Inl e \<Rightarrow> Inl e
           | Inr (v, numeric, rest) \<Rightarrow>
               Inr (advance input (length (c # cs) - length rest) this, value @ v,
                    flag \<or> numeric))"
        by (rule continue) (simp_all add: "2.IH"(1) [OF nq False] split: sum.splits)
      then show ?thesis
        unfolding regular_string_loop_plain [OF here(1) here(2) nq False]
        using nq False by simp
    next
      case bs: True
      then have bq: "BACKSLASH \<noteq> q" using nq by simp
      have c1: "charAt input (pos this) = Some BACKSLASH" using here(2) bs by simp
      note step = regular_string_loop_escape [OF here(1) c1 bq]
      show ?thesis
      proof (cases cs)
        case Nil
        then have "reachedEnd (advance input 1 this)"
          using here(4,5) by (simp add: consistent_def)
        then show ?thesis
          unfolding step using nq bs Nil by simp
      next
        case (Cons e es)
        note here1 = consistent_drop [OF here(5) here(4) [unfolded Cons]]
        have p1: "pos (advance input 1 this) = Suc (pos this)" by (rule here(3))
        have es: "drop (Suc (Suc (pos this))) input = es"
          using here1(4) here1(3) p1 by simp
        have hex4: "substring input (pos (advance input 1 this) + 1) (pos (advance input 1 this) + 5)
            = take 4 es"
          using substring_take_drop [of input "Suc (Suc (pos this))" 4] es p1
          by (simp add: numeral_eq_Suc)
        have hex2: "substring input (pos (advance input 1 this) + 1) (pos (advance input 1 this) + 3)
            = take 2 es"
          using substring_take_drop [of input "Suc (Suc (pos this))" 2] es p1
          by (simp add: numeral_eq_Suc)
        have e1: "\<not> reachedEnd (advance input 1 this)"
          and e2: "charAt input (pos (advance input 1 this)) = Some e"
          using here1(1,2) by simp_all
        show ?thesis
        proof (cases "[e] = str ''u''")
          case u: True
          show ?thesis
          proof (cases "regexHex4 (take 4 es)")
            case False
            then show ?thesis
              unfolding step Let_def hex4 e2 using nq bs Cons u e1
              by (auto simp: regexHex4_def)
          next
            case True
            then have len: "6 \<le> length (c # cs)"
              using Cons by (auto simp: regexHex4_def min_def split: if_splits)
            have st: "advance input 1 (advance input 4 (advance input 1 this)) = advance input 6 this"
              by (simp add: advance_compose)
            have "regular_string_loop input q (advance input 6 this)
                  (value @ [fromCharCode_hex (take 4 es)]) flag' =
                (case decoded (fromCharCode_hex (take 4 es)) False
                        (spec_decode q (drop 6 (c # cs))) of
                   Inl e \<Rightarrow> Inl e
                 | Inr (v, numeric, rest) \<Rightarrow>
                     Inr (advance input (length (c # cs) - length rest) this, value @ v,
                          flag' \<or> numeric))" for flag'
              using True bs
              by (intro continue [OF len])
                 (simp add: Cons "2.IH"(2) [OF nq _ Cons u] regexHex4_def split: sum.splits)
            from this [of True] show ?thesis
              unfolding step Let_def hex4 e2 st using nq bs Cons u e1 True
              by (auto simp: regexHex4_def decoded_def split: sum.splits)
          qed
        next
          case nu: False
          show ?thesis
          proof (cases "[e] = str ''x''")
            case x: True
            show ?thesis
            proof (cases "regexHex2 (take 2 es)")
              case False
              then show ?thesis
                unfolding step Let_def hex2 e2 using nq bs Cons nu x e1
                by (auto simp: regexHex2_def)
            next
              case True
              then have len: "4 \<le> length (c # cs)"
                using Cons by (auto simp: regexHex2_def min_def split: if_splits)
              have st: "advance input 1 (advance input 2 (advance input 1 this)) = advance input 4 this"
                by (simp add: advance_compose eval_nat_numeral)
              have "regular_string_loop input q (advance input 4 this)
                    (value @ [fromCharCode_hex (take 2 es)]) flag' =
                  (case decoded (fromCharCode_hex (take 2 es)) False
                          (spec_decode q (drop 4 (c # cs))) of
                     Inl e \<Rightarrow> Inl e
                   | Inr (v, numeric, rest) \<Rightarrow>
                       Inr (advance input (length (c # cs) - length rest) this, value @ v,
                            flag' \<or> numeric))" for flag'
                using True bs
                by (intro continue [OF len])
                   (simp add: Cons "2.IH"(3) [OF nq _ Cons nu x] regexHex2_def split: sum.splits)
              from this [of True] show ?thesis
                unfolding step Let_def hex2 e2 st using nq bs Cons nu x e1 True
                by (auto simp: regexHex2_def decoded_def split: sum.splits)
            qed
          next
            case nx: False
            have st: "advance input 1 (advance input 1 this) = advance input 2 this"
              by (simp add: advance_compose eval_nat_numeral)
            have len: "2 \<le> length (c # cs)" using Cons by simp
            have "regular_string_loop input q (advance input 2 this)
                  (value @ [simple_escape e]) flag =
                (case decoded (simple_escape e) False (spec_decode q (drop 2 (c # cs))) of
                   Inl e \<Rightarrow> Inl e
                 | Inr (v, numeric, rest) \<Rightarrow>
                     Inr (advance input (length (c # cs) - length rest) this, value @ v,
                          flag \<or> numeric))"
              using bs
              by (intro continue [OF len])
                 (simp add: Cons "2.IH"(4) [OF nq _ Cons nu nx] split: sum.splits)
            then show ?thesis
              unfolding step Let_def e2 st using nq bs Cons nu nx e1
              by (auto simp: decoded_def split: sum.splits)
          qed
        qed
      qed
    qed
  qed
qed

lemma parseRegularString_refines:
  assumes cons: "consistent input this" and ne: "\<not> reachedEnd this"
  shows "parseRegularString nfc input q this =
     (case spec_decode q (drop (Suc (pos this)) input) of
        Inl e \<Rightarrow> Inl e
      | Inr (v, numeric, rest) \<Rightarrow>
          if rest = [] then Inl StringNotClosed
          else Inr (\<lparr>token_pos = pos this, token_row = row this, token_col = col this,
                     token_text = [q] @ v @ [q],
                     token_value = StringValue (if numeric then nfc v else v),
                     token_type = ''STRING'', token_subType = Some ''REGULAR_STRING''\<rparr>,
                    advance input (length input - pos this - length rest + 1) this))"
proof -
  let ?body = "drop (Suc (pos this)) input"
  have lt: "pos this < length input"
    using cons ne by (simp add: consistent_def)
  have c1: "consistent input (advance input 1 this)"
    by (rule advance_pos(2) [OF cons])
  have p1: "pos (advance input 1 this) = Suc (pos this)"
    using advance_pos(1) [OF cons, of 1] ne lt by simp
  have d1: "drop (pos (advance input 1 this)) input = ?body"
    by (simp only: p1)
  note loop = regular_string_loop_refines [OF c1 d1, of q "[]" False]
  show ?thesis
  proof (cases "spec_decode q ?body")
    case (Inl e)
    then show ?thesis
      unfolding parseRegularString_def Let_def loop by simp
  next
    case (Inr r)
    obtain v n rest where r: "r = (v, n, rest)" by (cases r)
    have le: "length rest \<le> length ?body"
      using spec_decode_rest Inr r by blast
    let ?k = "length ?body - length rest"
    let ?this2 = "advance input ?k (advance input 1 this)"
    have c2: "consistent input ?this2"
      by (rule advance_pos(2) [OF c1])
    have p2: "pos ?this2 = Suc (pos this) + ?k"
      using advance_more(2) [OF c1 d1, of ?k] p1 by simp
    have lb: "length ?body = length input - Suc (pos this)"
      by simp
    have p3: "pos ?this2 = length input - length rest" and lr: "length rest < length input"
      using p2 le lt unfolding lb by arith+
    have "(length input \<le> length input - length rest) = (rest = [])"
      using lr by (cases rest) auto
    then have e2: "reachedEnd ?this2 = (rest = [])"
      using c2 unfolding consistent_def p3 by simp
    have "advance input 1 ?this2 = advance input (length input - pos this - length rest + 1) this"
      using le lt by (simp add: advance_compose) (metis Suc_diff_Suc Suc_diff_le diff_diff_left length_drop plus_1_eq_Suc)
    then show ?thesis
      unfolding parseRegularString_def Let_def loop using Inr r e2 by simp
  qed
qed

lemma open_span_prefix: "take (length (open_span xs)) xs = open_span xs"
  by (induction xs) auto

lemma rtrim_Cons:
  "rtrim (c # cs) =
     (if rtrim cs = [] then (if isWhitespace (Some c) then [] else [c]) else c # rtrim cs)"
  by (auto simp: rtrim_def dropWhile_append)

lemma rtrim_Nil [simp]: "rtrim [] = []"
  by (simp add: rtrim_def)

lemma last_nonws_less: "last_nonws s = Some k \<Longrightarrow> k < length s"
  by (induction s arbitrary: k) (auto split: option.splits if_splits)

lemma last_nonws_rtrim:
  "rtrim s = (case last_nonws s of None \<Rightarrow> [] | Some k \<Rightarrow> take (Suc k) s)"
proof (induction s)
  case Nil
  then show ?case by simp
next
  case (Cons a s)
  show ?case
  proof (cases "last_nonws s")
    case None
    with Cons show ?thesis by (simp add: rtrim_Cons)
  next
    case (Some k)
    then have "s \<noteq> []" by auto
    with Some Cons show ?thesis by (simp add: rtrim_Cons)
  qed
qed

lemma last_nonws_hd:
  "s \<noteq> [] \<Longrightarrow> \<not> isWhitespace (Some (hd s)) \<Longrightarrow> last_nonws s \<noteq> None"
  by (cases s) (auto split: option.splits)

lemma open_string_loop_end:
  "reachedEnd this \<or> \<not> isValidOpenStringChar (charAt input (pos this))
   \<or> substring input (pos this) (pos this + 3) = str ''---'' \<and> charAt input (pos this) = Some MINUS \<Longrightarrow>
   open_string_loop input this lastPos = (this, lastPos)"
  by (subst open_string_loop.simps) auto

lemma open_string_loop_step:
  "\<not> reachedEnd this \<Longrightarrow> isValidOpenStringChar (charAt input (pos this)) \<Longrightarrow>
   \<not> (charAt input (pos this) = Some MINUS \<and> substring input (pos this) (pos this + 3) = str ''---'') \<Longrightarrow>
   open_string_loop input this lastPos =
     open_string_loop input (advance input 1 this)
       (if \<not> isWhitespace (charAt input (pos this)) then pos this else lastPos)"
  by (subst open_string_loop.simps) auto

lemma dashes_start: "take 3 (c # cs) = str ''---'' \<Longrightarrow> c = MINUS"
  by (cases cs) (auto simp: str_def MINUS_def)

lemma open_string_loop_refines:
  "consistent input this \<Longrightarrow> drop (pos this) input = xs \<Longrightarrow>
   open_string_loop input this lastPos =
     (advance input (length (open_span xs)) this,
      (case last_nonws (open_span xs) of None \<Rightarrow> lastPos | Some k \<Rightarrow> pos this + k))"
proof (induction xs arbitrary: this lastPos)
  case Nil
  then have "reachedEnd this" by (simp add: consistent_def)
  then show ?case by (simp add: open_string_loop_end)
next
  case (Cons c cs)
  note here = consistent_drop [OF Cons.prems]
  have sub: "substring input (pos this) (pos this + 3) = take 3 (c # cs)"
    using substring_take_drop [of input "pos this" 3] Cons.prems(2) by simp
  show ?case
  proof (cases "isValidOpenStringChar (Some c) \<and> take 3 (c # cs) \<noteq> str ''---''")
    case False
    then have "\<not> isValidOpenStringChar (charAt input (pos this))
      \<or> substring input (pos this) (pos this + 3) = str ''---'' \<and> charAt input (pos this) = Some MINUS"
      using here(2) sub dashes_start by auto
    then have "open_string_loop input this lastPos = (this, lastPos)"
      by (intro open_string_loop_end) blast
    then show ?thesis
      using False by auto
  next
    case True
    have v: "isValidOpenStringChar (charAt input (pos this))"
      using True here(2) by simp
    have nd: "\<not> (charAt input (pos this) = Some MINUS
        \<and> substring input (pos this) (pos this + 3) = str ''---'')"
      using True sub by simp
    have step: "open_string_loop input this lastPos =
        open_string_loop input (advance input 1 this)
          (if \<not> isWhitespace (Some c) then pos this else lastPos)"
      using open_string_loop_step [OF here(1) v nd, of lastPos] here(2) by simp
    show ?thesis
      unfolding step Cons.IH [OF here(5) here(4)]
      using True here(3) by (auto simp: advance_compose split: option.splits)
  qed
qed

subsection \<open>Open strings and the claims\<close>

lemma literal_token_classified:
  "(if v = str ''true'' \<or> v = str ''T'' then
           Inr (\<lparr>token_pos = p, token_row = r, token_col = c,
                  token_text = v, token_value = BooleanValue True,
                  token_type = ''BOOLEAN'', token_subType = None\<rparr>, s)
         else if v = str ''false'' \<or> v = str ''F'' then
           Inr (\<lparr>token_pos = p, token_row = r, token_col = c,
                  token_text = v, token_value = BooleanValue False,
                  token_type = ''BOOLEAN'', token_subType = None\<rparr>, s)
         else if v = str ''null'' \<or> v = str ''N'' then
           Inr (\<lparr>token_pos = p, token_row = r, token_col = c,
                  token_text = v, token_value = NullValue,
                  token_type = ''NULL'', token_subType = None\<rparr>, s)
         else
           Inr (\<lparr>token_pos = p, token_row = r, token_col = c,
                  token_text = v, token_value = StringValue v,
                  token_type = ''STRING'', token_subType = Some ''OPEN_STRING''\<rparr>, s))
   = (Inr (\<lparr>token_pos = p, token_row = r, token_col = c,
                    token_text = v, token_value = fst (spec_literal v),
                    token_type = fst (snd (spec_literal v)),
                    token_subType = snd (snd (spec_literal v))\<rparr>, s)
      :: tokenizer_error + token \<times> Tokenizer)"
proof -
  define A B C where "A \<longleftrightarrow> v = str ''T'' \<or> v = str ''true''"
    and "B \<longleftrightarrow> v = str ''F'' \<or> v = str ''false''"
    and "C \<longleftrightarrow> v = str ''N'' \<or> v = str ''null''"
  have t: "v = str ''true'' \<or> v = str ''T'' \<longleftrightarrow> A"
    and f: "v = str ''false'' \<or> v = str ''F'' \<longleftrightarrow> B"
    and n: "v = str ''null'' \<or> v = str ''N'' \<longleftrightarrow> C"
    unfolding A_def B_def C_def by blast+
  show ?thesis
    unfolding spec_literal_def t f n A_def [symmetric] B_def [symmetric] C_def [symmetric]
    by (cases A; cases B; cases C) simp_all
qed


lemma parseLiteralOrOpenString_refines:
  assumes cons: "consistent input this"
  shows "parseLiteralOrOpenString input this =
     (let span = open_span (drop (pos this) input);
          value = (case last_nonws span of
                     None \<Rightarrow> take 1 (drop (pos this) input)
                   | Some k \<Rightarrow> rtrim span)
      in if value = [] then Inl UnexpectedCharacter
         else Inr (\<lparr>token_pos = pos this, token_row = row this, token_col = col this,
                    token_text = value, token_value = fst (spec_literal value),
                    token_type = fst (snd (spec_literal value)),
                    token_subType = snd (snd (spec_literal value))\<rparr>,
                   advance input (length span) this))"
proof -
  let ?span = "open_span (drop (pos this) input)"
  note loop = open_string_loop_refines [OF cons refl, of "pos this"]
  have val: "substring input (pos this)
        ((case last_nonws ?span of None \<Rightarrow> pos this | Some k \<Rightarrow> pos this + k) + 1) =
      (case last_nonws ?span of
         None \<Rightarrow> take 1 (drop (pos this) input)
       | Some k \<Rightarrow> rtrim ?span)"
  proof (cases "last_nonws ?span")
    case None
    then show ?thesis
      using substring_take_drop [of input "pos this" 1] by simp
  next
    case (Some k)
    have "take (Suc k) ?span = take (Suc k) (take (length ?span) (drop (pos this) input))"
      by (simp only: open_span_prefix)
    also have "\<dots> = take (Suc k) (drop (pos this) input)"
      using last_nonws_less [OF Some] by (simp add: min_def)
    finally have "take (Suc k) (drop (pos this) input) = take (Suc k) ?span"
      by simp
    then show ?thesis
      using Some substring_take_drop [of input "pos this" "Suc k"]
      by (simp add: last_nonws_rtrim)
  qed
  show ?thesis
    unfolding parseLiteralOrOpenString_def loop Let_def prod.case val literal_token_classified
    by (rule refl)
qed

text \<open>
  The dispatch of \<^verbatim>\<open>tokenize\<close>: in the states of \<open>starts_open_string\<close> the turn of the loop
  is the call of \<^verbatim>\<open>parseLiteralOrOpenString\<close>, and there the character is not white space
  and the open string is not empty; at a quote the turn is the call of
  \<^verbatim>\<open>parseRegularString\<close> with this quote.
\<close>

lemma tokenize_step_open_string:
  assumes "starts_open_string input this"
  shows "tokenize_step normalize_NFC input this =
     Some (map_sum id (\<lambda>(t, this'). ([t], this')) (parseLiteralOrOpenString input this))"
proof -
  define char where "char = charAt input (pos this)"
  define nq where "nq \<longleftrightarrow> charAt input (pos this + 1) = Some DOUBLE_QUOTE
                    \<or> charAt input (pos this + 1) = Some SINGLE_QUOTE"
  define num where "num \<longleftrightarrow> char = Some PLUS \<or> char = Some MINUS \<or> isDigit char"
  from assms have f: "\<not> isWhitespace char" "char \<noteq> Some HASH"
    "\<not> (char = Some DOUBLE_QUOTE \<or> char = Some SINGLE_QUOTE)"
    "\<not> (char = Some 0x72 \<and> nq)" "\<not> (char = Some 0x62 \<and> nq)" "\<not> isSpecialSymbol char"
    unfolding starts_open_string_def Let_def char_def nq_def by simp_all
  from assms have g: "num \<longrightarrow> char = Some MINUS
                   \<and> substring input (pos this) (pos this + 3) \<noteq> str ''---''
                   \<and> \<not> isDigit (charAt input (pos this + 1))"
    unfolding starts_open_string_def Let_def char_def num_def
    by (simp only: if_split_asm [where P = "\<lambda>x. x"]) blast
  have step: "tokenize_step normalize_NFC input this =
      (if num then
         (if char = Some MINUS \<and> substring input (pos this) (pos this + 3) = str ''---''
          then
            Some (Inr ([\<lparr>token_pos = pos this, token_row = row this, token_col = col this,
                          token_text = str ''---'', token_value = StringValue (str ''---''),
                          token_type = ''SECTION_SEP'', token_subType = None\<rparr>],
                       advance input 3 this))
          else
            (case parseNumber input this of
               None \<Rightarrow> None
             | Some (Some token, this') \<Rightarrow> Some (Inr ([token], this'))
             | Some (None, this') \<Rightarrow>
                 Some (map_sum id (\<lambda>(t, this''). ([t], this''))
                         (parseLiteralOrOpenString input this'))))
       else
         Some (map_sum id (\<lambda>(t, this'). ([t], this'))
                 (parseLiteralOrOpenString input this)))"
    unfolding tokenize_step_def Let_def char_def [symmetric] nq_def [symmetric]
      num_def [symmetric]
    by (simp only: f if_False)
  show ?thesis
  proof (cases num)
    case False
    then show ?thesis by (simp add: step)
  next
    case True
    with g have m: "char = Some MINUS"
      "substring input (pos this) (pos this + 3) \<noteq> str ''---''"
      "\<not> isDigit (charAt input (pos this + 1))"
      by simp_all
    have "parseNumber input this = Some (None, this)"
      using m(1,3) by (simp add: parseNumber_def char_def)
    with True m show ?thesis by (simp add: step)
  qed
qed

lemma starts_open_string_span:
  assumes "starts_open_string input this"
  shows "\<not> isWhitespace (charAt input (pos this)) \<and> open_span (drop (pos this) input) \<noteq> []"
proof -
  from assms obtain c where c: "charAt input (pos this) = Some c"
    by (auto simp: starts_open_string_def Let_def)
  then have lt: "pos this < length input" and ci: "c = input ! pos this"
    by (auto simp: charAt_def split: if_splits)
  then obtain cs where d: "drop (pos this) input = c # cs"
    by (metis Cons_nth_drop_Suc)
  have sub: "substring input (pos this) (pos this + 3) = take 3 (c # cs)"
    using substring_take_drop [of input "pos this" 3] d by simp
  have v: "isValidOpenStringChar (Some c)"
    using assms c by (auto simp: starts_open_string_def Let_def isValidOpenStringChar_def)
  have "take 3 (c # cs) \<noteq> str ''---''"
  proof
    assume e: "take 3 (c # cs) = str ''---''"
    then have "c = MINUS" by (rule dashes_start)
    with assms c sub e show False
      by (auto simp: starts_open_string_def Let_def)
  qed
  with v d assms show ?thesis
    by (auto simp: starts_open_string_def Let_def)
qed

lemma tokenize_step_regular_string:
  assumes c: "charAt input (pos this) = Some q" and q: "q = DOUBLE_QUOTE \<or> q = SINGLE_QUOTE"
  shows "tokenize_step normalize_NFC input this =
     Some (map_sum id (\<lambda>(t, this'). ([t], this'))
             (parseRegularString normalize_NFC input q this))"
proof -
  have f: "\<not> isWhitespace (Some q)" "Some q \<noteq> Some HASH"
    "Some q = Some DOUBLE_QUOTE \<or> Some q = Some SINGLE_QUOTE"
    using q by (auto simp: isWhitespace_def HASH_def DOUBLE_QUOTE_def SINGLE_QUOTE_def)
  show ?thesis
    unfolding tokenize_step_def Let_def c
    by (simp only: f if_False if_True option.sel)
qed

text \<open>
  C9. At a position where the tokenizer starts an open string (the state is consistent,
  the character there is not white space, may stand in an open string and does not start
  \<^verbatim>\<open>---\<close>), \<^verbatim>\<open>parseLiteralOrOpenString\<close> consumes \<open>open_span\<close> of the rest of the input
  and returns a token whose text is what it consumed without the white space at its
  end, which is not empty; the value, type and subtype of the token are those of the
  specification: the boolean true for \<^verbatim>\<open>T\<close> and \<^verbatim>\<open>true\<close>, false for \<^verbatim>\<open>F\<close> and \<^verbatim>\<open>false\<close>,
  null for \<^verbatim>\<open>N\<close> and \<^verbatim>\<open>null\<close>, and otherwise the string itself with subtype
  \<^verbatim>\<open>OPEN_STRING\<close>. At the end of the input nothing is accumulated and it fails with the
  unexpected-character error.
\<close>

theorem open_string_token:
  "(consistent input this \<and> \<not> isWhitespace (charAt input (pos this))
      \<and> open_span (drop (pos this) input) \<noteq> []
    \<longrightarrow> rtrim (open_span (drop (pos this) input)) \<noteq> []
        \<and> parseLiteralOrOpenString input this =
            Inr (\<lparr>token_pos = pos this, token_row = row this, token_col = col this,
                   token_text = rtrim (open_span (drop (pos this) input)),
                   token_value = fst (spec_literal (rtrim (open_span (drop (pos this) input)))),
                   token_type =
                     fst (snd (spec_literal (rtrim (open_span (drop (pos this) input))))),
                   token_subType =
                     snd (snd (spec_literal (rtrim (open_span (drop (pos this) input)))))\<rparr>,
                 advance input (length (open_span (drop (pos this) input))) this))
   \<and> (length input \<le> pos this
    \<longrightarrow> parseLiteralOrOpenString input this = Inl UnexpectedCharacter)"
proof (intro conjI impI)
  assume a: "consistent input this \<and> \<not> isWhitespace (charAt input (pos this))
      \<and> open_span (drop (pos this) input) \<noteq> []"
  let ?span = "open_span (drop (pos this) input)"
  from a obtain c cs where d: "drop (pos this) input = c # cs"
    by (cases "drop (pos this) input") auto
  with a have "charAt input (pos this) = Some c"
    using consistent_drop(2) by blast
  with a d have "hd ?span = c" "\<not> isWhitespace (Some c)"
    by (auto split: if_splits)
  with a obtain k where k: "last_nonws ?span = Some k"
    using last_nonws_hd [of ?span] by auto
  then have r: "rtrim ?span = take (Suc k) ?span"
    by (simp add: last_nonws_rtrim)
  with a show ne: "rtrim ?span \<noteq> []"
    by simp
  show "parseLiteralOrOpenString input this =
      Inr (\<lparr>token_pos = pos this, token_row = row this, token_col = col this,
             token_text = rtrim ?span, token_value = fst (spec_literal (rtrim ?span)),
             token_type = fst (snd (spec_literal (rtrim ?span))),
             token_subType = snd (snd (spec_literal (rtrim ?span)))\<rparr>,
           advance input (length ?span) this)"
    using a ne k by (simp add: parseLiteralOrOpenString_refines Let_def)
next
  assume "length input \<le> pos this"
  then have "open_string_loop input this (pos this) = (this, pos this)"
    by (intro open_string_loop_end) (simp add: charAt_def isValidOpenStringChar_def)
  moreover have "substring input (pos this) (pos this + 1) = []"
    using \<open>length input \<le> pos this\<close> substring_take_drop [of input "pos this" 1] by simp
  ultimately show "parseLiteralOrOpenString input this = Inl UnexpectedCharacter"
    by (simp add: parseLiteralOrOpenString_def)
qed

text \<open>
  C7. At the opening quote of a regular string, the value of the token that
  \<^verbatim>\<open>parseRegularString\<close> returns, or its error, is that of the specification on the text
  after the quote: a \<^verbatim>\<open>\u\<close> not followed by four hexadecimal digits and a \<^verbatim>\<open>\x\<close> not
  followed by two fail, an input that ends in an escape or before the closing quote
  fails, and the decoded text is normalized once exactly when a \<^verbatim>\<open>\u\<close> or \<^verbatim>\<open>\x\<close> escape
  was decoded.
\<close>

theorem regular_string_decoding:
  assumes "consistent input this" and "\<not> reachedEnd this"
  shows "map_sum id (\<lambda>r. token_value (fst r)) (parseRegularString normalize_NFC input q this) =
         spec_regular_string normalize_NFC q (drop (Suc (pos this)) input)"
  unfolding parseRegularString_refines [OF assms] spec_regular_string_def
  by (auto split: sum.splits)

text \<open>
  C1. The input is the six characters \<^verbatim>\<open>"a\nb"\<close> (quote, \<^verbatim>\<open>a\<close>, backslash, \<^verbatim>\<open>n\<close>, \<^verbatim>\<open>b\<close>,
  quote). \<^verbatim>\<open>tokenize\<close> returns one token whose text is the five characters quote, \<^verbatim>\<open>a\<close>,
  line feed, \<^verbatim>\<open>b\<close>, quote: \<^verbatim>\<open>parseRegularString\<close> builds the text from the decoded
  value. This text is not a substring of the input.
\<close>

theorem regular_string_text_is_decoded:
  "tokenize normalize_NFC ([0x22] @ str ''a'' @ [0x5C] @ str ''nb'' @ [0x22]) =
     Some (Inr [\<lparr>token_pos = 0, token_row = 1, token_col = 1,
                  token_text = [0x22] @ str ''a'' @ [0x0A] @ str ''b'' @ [0x22],
                  token_value = StringValue (str ''a'' @ [0x0A] @ str ''b''),
                  token_type = ''STRING'', token_subType = Some ''REGULAR_STRING''\<rparr>])
   \<and> occurs_in ([0x22] @ str ''a'' @ [0x0A] @ str ''b'' @ [0x22])
                ([0x22] @ str ''a'' @ [0x5C] @ str ''nb'' @ [0x22]) = False"
  by code_simp

theorem regular_string_text_is_decoded_witness:
  "map_option (map_sum id (map token_text))
     (tokenize normalize_example ([0x22] @ str ''a'' @ [0x5C] @ str ''nb'' @ [0x22])) =
     Some (Inr [[0x22] @ str ''a'' @ [0x0A] @ str ''b'' @ [0x22]])"
  using regular_string_text_is_decoded [of normalize_example] by simp

text \<open>
  C5. On the input \<^verbatim>\<open>+a\<close>, \<^verbatim>\<open>tokenize\<close> returns a \<^verbatim>\<open>NUMBER\<close> token of text \<^verbatim>\<open>+\<close> whose
  value is \<^verbatim>\<open>NaN\<close>, and then the open string \<^verbatim>\<open>a\<close>: \<^verbatim>\<open>parseNumber\<close> asks for a digit
  after \<^verbatim>\<open>-\<close> but not after \<^verbatim>\<open>+\<close>.
\<close>

theorem plus_without_digit_is_a_number:
  "tokenize normalize_NFC (str ''+a'') =
     Some (Inr [\<lparr>token_pos = 0, token_row = 1, token_col = 1, token_text = str ''+'',
                  token_value = NumberValue NaN, token_type = ''NUMBER'',
                  token_subType = None\<rparr>,
                \<lparr>token_pos = 1, token_row = 1, token_col = 2, token_text = str ''a'',
                  token_value = StringValue (str ''a''), token_type = ''STRING'',
                  token_subType = Some ''OPEN_STRING''\<rparr>])"
  by code_simp

theorem plus_without_digit_is_a_number_witness:
  "map_option (map_sum id (map token_value)) (tokenize normalize_example (str ''+a'')) =
     Some (Inr [NumberValue NaN, StringValue (str ''a'')])"
  using plus_without_digit_is_a_number [of normalize_example] by simp

text \<open>After \<^verbatim>\<open>-\<close> the digit is asked for, and \<^verbatim>\<open>parseNumber\<close> returns \<^verbatim>\<open>null\<close> without it.\<close>

lemma minus_without_digit_is_not_a_number:
  "charAt input (pos this) = Some MINUS \<Longrightarrow> \<not> isDigit (charAt input (pos this + 1)) \<Longrightarrow>
   parseNumber input this = Some (None, this)"
  by (simp add: parseNumber_def)

text \<open>
  The witness of C7, on the inputs \<^verbatim>\<open>"\u00e"\<close>, \<^verbatim>\<open>"\x4"\<close>, \<^verbatim>\<open>"\u00e9\x41"\<close>, \<^verbatim>\<open>"a\nb"\<close>,
  \<^verbatim>\<open>"a\\<close> and \<^verbatim>\<open>"ab\<close>.
\<close>

theorem regular_string_decoding_witness:
  "map_sum id (\<lambda>r. token_value (fst r))
     (parseRegularString normalize_example ([0x22, 0x5C] @ str ''u00e'' @ [0x22]) 0x22 new_Tokenizer)
     = Inl (InvalidUnicodeEscape (str ''00e'' @ [0x22]))
   \<and> map_sum id (\<lambda>r. token_value (fst r))
     (parseRegularString normalize_example ([0x22, 0x5C] @ str ''x4'' @ [0x22]) 0x22 new_Tokenizer)
     = Inl (InvalidHexEscape (str ''4'' @ [0x22]))
   \<and> map_sum id (\<lambda>r. token_value (fst r))
     (parseRegularString normalize_example
        ([0x22, 0x5C] @ str ''u00e9'' @ [0x5C] @ str ''x41'' @ [0x22]) 0x22 new_Tokenizer)
     = Inr (StringValue (normalize_example [0xE9, 0x41]))
   \<and> map_sum id (\<lambda>r. token_value (fst r))
     (parseRegularString normalize_example
        ([0x22] @ str ''a'' @ [0x5C] @ str ''nb'' @ [0x22]) 0x22 new_Tokenizer)
     = Inr (StringValue (str ''a'' @ [0x0A] @ str ''b''))
   \<and> map_sum id (\<lambda>r. token_value (fst r))
     (parseRegularString normalize_example ([0x22] @ str ''a'' @ [0x5C]) 0x22 new_Tokenizer)
     = Inl UnprocessedEscape
   \<and> map_sum id (\<lambda>r. token_value (fst r))
     (parseRegularString normalize_example ([0x22] @ str ''ab'') 0x22 new_Tokenizer)
     = Inl StringNotClosed"
proof -
  have c: "input \<noteq> [] \<Longrightarrow> consistent input new_Tokenizer" for input
    by (simp add: consistent_def new_Tokenizer_def)
  have n: "\<not> reachedEnd new_Tokenizer"
    by (simp add: new_Tokenizer_def)
  note w = regular_string_decoding [OF c n, of _ normalize_example "0x22"]
  have "spec_regular_string normalize_example 0x22
          (drop (Suc (pos new_Tokenizer)) ([0x22, 0x5C] @ str ''u00e'' @ [0x22]))
        = Inl (InvalidUnicodeEscape (str ''00e'' @ [0x22]))"
    "spec_regular_string normalize_example 0x22
          (drop (Suc (pos new_Tokenizer)) ([0x22, 0x5C] @ str ''x4'' @ [0x22]))
        = Inl (InvalidHexEscape (str ''4'' @ [0x22]))"
    "spec_regular_string normalize_example 0x22
          (drop (Suc (pos new_Tokenizer))
             ([0x22, 0x5C] @ str ''u00e9'' @ [0x5C] @ str ''x41'' @ [0x22]))
        = Inr (StringValue (normalize_example [0xE9, 0x41]))"
    "spec_regular_string normalize_example 0x22
          (drop (Suc (pos new_Tokenizer)) ([0x22] @ str ''a'' @ [0x5C] @ str ''nb'' @ [0x22]))
        = Inr (StringValue (str ''a'' @ [0x0A] @ str ''b''))"
    "spec_regular_string normalize_example 0x22
          (drop (Suc (pos new_Tokenizer)) ([0x22] @ str ''a'' @ [0x5C]))
        = Inl UnprocessedEscape"
    "spec_regular_string normalize_example 0x22
          (drop (Suc (pos new_Tokenizer)) ([0x22] @ str ''ab''))
        = Inl StringNotClosed"
    by code_simp+
  then show ?thesis
    by (simp add: w)
qed

text \<open>
  The witness of C9, on the inputs \<^verbatim>\<open>hello  world  , x\<close>, \<^verbatim>\<open>true \<close>, \<^verbatim>\<open>F,\<close>, \<^verbatim>\<open>N\<close> and the
  empty input.
\<close>

theorem open_string_token_witness:
  "map_sum id fst (parseLiteralOrOpenString (str ''hello  world  , x'') new_Tokenizer)
     = Inr \<lparr>token_pos = 0, token_row = 1, token_col = 1, token_text = str ''hello  world'',
            token_value = StringValue (str ''hello  world''), token_type = ''STRING'',
            token_subType = Some ''OPEN_STRING''\<rparr>
   \<and> map_sum id fst (parseLiteralOrOpenString (str ''true '') new_Tokenizer)
     = Inr \<lparr>token_pos = 0, token_row = 1, token_col = 1, token_text = str ''true'',
            token_value = BooleanValue True, token_type = ''BOOLEAN'', token_subType = None\<rparr>
   \<and> map_sum id fst (parseLiteralOrOpenString (str ''F,'') new_Tokenizer)
     = Inr \<lparr>token_pos = 0, token_row = 1, token_col = 1, token_text = str ''F'',
            token_value = BooleanValue False, token_type = ''BOOLEAN'', token_subType = None\<rparr>
   \<and> map_sum id fst (parseLiteralOrOpenString (str ''N'') new_Tokenizer)
     = Inr \<lparr>token_pos = 0, token_row = 1, token_col = 1, token_text = str ''N'',
            token_value = NullValue, token_type = ''NULL'', token_subType = None\<rparr>
   \<and> parseLiteralOrOpenString [] new_Tokenizer = Inl UnexpectedCharacter"
proof -
  have h: "consistent (str ''hello  world  , x'') new_Tokenizer
      \<and> \<not> isWhitespace (charAt (str ''hello  world  , x'') (pos new_Tokenizer))
      \<and> open_span (drop (pos new_Tokenizer) (str ''hello  world  , x'')) \<noteq> []"
    "consistent (str ''true '') new_Tokenizer
      \<and> \<not> isWhitespace (charAt (str ''true '') (pos new_Tokenizer))
      \<and> open_span (drop (pos new_Tokenizer) (str ''true '')) \<noteq> []"
    "consistent (str ''F,'') new_Tokenizer
      \<and> \<not> isWhitespace (charAt (str ''F,'') (pos new_Tokenizer))
      \<and> open_span (drop (pos new_Tokenizer) (str ''F,'')) \<noteq> []"
    "consistent (str ''N'') new_Tokenizer
      \<and> \<not> isWhitespace (charAt (str ''N'') (pos new_Tokenizer))
      \<and> open_span (drop (pos new_Tokenizer) (str ''N'')) \<noteq> []"
    by code_simp+
  have r: "rtrim (open_span (str ''hello  world  , x'')) = str ''hello  world''"
    "rtrim (open_span (str ''true '')) = str ''true''"
    "rtrim (open_span (str ''F,'')) = str ''F''"
    "rtrim (open_span (str ''N'')) = str ''N''"
    by code_simp+
  have l: "spec_literal (str ''hello  world'')
        = (StringValue (str ''hello  world''), ''STRING'', Some ''OPEN_STRING'')"
    "spec_literal (str ''true'') = (BooleanValue True, ''BOOLEAN'', None)"
    "spec_literal (str ''F'') = (BooleanValue False, ''BOOLEAN'', None)"
    "spec_literal (str ''N'') = (NullValue, ''NULL'', None)"
    by code_simp+
  have p: "pos new_Tokenizer = 0" "row new_Tokenizer = 1" "col new_Tokenizer = 1"
    by (simp_all add: new_Tokenizer_def)
  note t = open_string_token [THEN conjunct1, rule_format, THEN conjunct2]
  have e: "length ([] :: jsstring) \<le> pos new_Tokenizer"
    by simp
  show ?thesis
    using t [OF h(1)] t [OF h(2)] t [OF h(3)] t [OF h(4)]
      open_string_token [THEN conjunct2, rule_format, OF e]
    unfolding p drop_0 r l by simp
qed

end
